theory Spec2Isabelle
  imports Complex_Main "HOL-Library.Char_ord" "HOL-Library.List_Lexorder" "HOL-Library.Sublist"
begin

chapter \<open>Definitions\<close>

section \<open>JavaScript numbers and arrays\<close>

text \<open>
  The application's counters (levels, XP, minutes, stat points) are integers and are
  modelled as \<open>int\<close>; the fractional quantities of the formulas (weights, multipliers,
  logarithms) are modelled as exact reals. \<open>Math.round\<close> rounds half up.
\<close>

definition jsRound :: "real \<Rightarrow> int" where
  "jsRound x = \<lfloor>x + 1 / 2\<rfloor>"

definition clamp :: "real \<Rightarrow> real \<Rightarrow> real \<Rightarrow> real" where
  "clamp v lo hi = max lo (min hi v)"

text \<open>
  \<open>Array.prototype.sort\<close> with a comparator is stable: an element is placed before the
  first element it does not compare greater than.
\<close>

fun insertBy :: "('a \<Rightarrow> 'a \<Rightarrow> real) \<Rightarrow> 'a \<Rightarrow> 'a list \<Rightarrow> 'a list" where
  "insertBy cmp x [] = [x]"
| "insertBy cmp x (y # ys) = (if cmp x y \<le> 0 then x # y # ys else y # insertBy cmp x ys)"

definition sortBy :: "('a \<Rightarrow> 'a \<Rightarrow> real) \<Rightarrow> 'a list \<Rightarrow> 'a list" where
  "sortBy cmp xs = foldr (insertBy cmp) xs []"

text \<open>
  The first element of a list that no later element beats, where \<open>ahead e b\<close> says that
  \<open>e\<close> stays ahead of a later \<open>b\<close>: with \<open>ahead e b\<close> for "\<open>b\<close> is not greater than \<open>e\<close>" it
  is the greatest element, and the first of them in the list when several are equal.
\<close>

fun firstBest :: "('a \<Rightarrow> 'a \<Rightarrow> bool) \<Rightarrow> 'a list \<Rightarrow> 'a option" where
  "firstBest ahead [] = None"
| "firstBest ahead (e # es) =
     (case firstBest ahead es of
        None \<Rightarrow> Some e
      | Some b \<Rightarrow> if ahead e b then Some e else Some b)"

section \<open>Domain types (domain/types.ts)\<close>

datatype StatKey = Strength | Vitality | Intellect | Creativity | Discipline | Social

datatype Priority = Low | Medium | High

record CharacterState =
  level :: int
  xpCurrent :: int
  xpLifetime :: int
  seasonCap :: int
  prestigeRank :: int
  legacyPoints :: int
  stats :: "StatKey \<Rightarrow> int"

text \<open>The stored row is \<open>CharacterState & { id: string }\<close>.\<close>

record StoredCharacter = CharacterState +
  characterId :: string

type_synonym StatDelta = "StatKey \<rightharpoonup> int"

record Category =
  catId :: string
  catName :: string
  statWeights :: "(StatKey \<times> real) list"
  xpMultiplier :: real
  isDefault :: bool

record StreakState =
  taskDays :: int
  focusDays :: int
  lastTaskDay :: "string option"
  lastFocusDay :: "string option"

section \<open>Progression engine (domain/progression.ts)\<close>

record TaskXpInput =
  xiPriority :: Priority
  deadlineSoon :: bool
  completedSubtasks :: int
  xiEstimateMinutes :: int
  noveltyFactor :: "real option"
  sameCategoryCountToday :: int
  repeatedTitleCount24h :: int
  dailyXpBefore :: int
  xiLevel :: int
  categoryMultiplier :: "real option"

fun priorityBonusMap :: "Priority \<Rightarrow> int" where
  "priorityBonusMap Low = 0"
| "priorityBonusMap Medium = 8"
| "priorityBonusMap High = 16"

definition xpToNext :: "int \<Rightarrow> int" where
  "xpToNext lv = jsRound (120 + 35 * real_of_int lv + 10 * (real_of_int lv) powr (135 / 100))"

definition dailySoftCap :: "int \<Rightarrow> int" where
  "dailySoftCap lv = 250 + lv * 25"

text \<open>
  \<open>Math.log\<close> of a negative number is \<open>NaN\<close>, and \<open>NaN\<close> passes through \<open>clamp\<close>, the
  products, \<open>Math.round\<close> and \<open>Math.max\<close>: for \<open>estimateMinutes < -15\<close> the function returns
  \<open>NaN\<close>, which is \<open>None\<close> here. \<open>Math.log(0)\<close> is \<open>-Infinity\<close>, which \<open>clamp\<close> raises to 0.6.
\<close>

definition calculateTaskXp :: "TaskXpInput \<Rightarrow> int option" where
  "calculateTaskXp input =
     (let base = 20 + priorityBonusMap (xiPriority input)
                 + (if deadlineSoon input then 12 else 0)
                 + min 10 (completedSubtasks input * 2);
          logArg = 1 + real_of_int (xiEstimateMinutes input) / 15
      in if logArg < 0 then None
         else
           (let durationFactor =
                  (if logArg = 0 then 6 / 10 else clamp (ln logArg) (6 / 10) (18 / 10));
                nf = (case noveltyFactor input of None \<Rightarrow> 1 | Some n \<Rightarrow> n);
                cm = (case categoryMultiplier input of None \<Rightarrow> 1 | Some m \<Rightarrow> m);
                xp0 = real_of_int base * durationFactor * nf * cm;
                xp1 = (if xiEstimateMinutes input < 5 then xp0 * (35 / 100) else xp0);
                xp2 = xp1 * (1 / (1 + (12 / 100) * real_of_int (sameCategoryCountToday input)));
                xp3 = xp2 * (8 / 10) powr real_of_int (repeatedTitleCount24h input);
                cap = dailySoftCap (xiLevel input);
                xp4 = (if dailyXpBefore input > cap then xp3 * (4 / 10) else xp3)
            in Some (max 1 (jsRound xp4))))"

text \<open>The \<open>while\<close> loop of \<open>applyXp\<close>; the level climbs towards the season cap.\<close>

function levelUpLoop :: "int \<Rightarrow> int \<Rightarrow> int \<Rightarrow> int \<times> int" where
  "levelUpLoop cap lv xp =
     (if xp \<ge> xpToNext lv \<and> lv < cap then levelUpLoop cap (lv + 1) (xp - xpToNext lv)
      else (lv, xp))"
  by pat_completeness auto
termination
  by (relation "measure (\<lambda>(cap, lv, xp). nat (cap - lv))") auto

declare levelUpLoop.simps [simp del]

definition applyXp :: "'a CharacterState_scheme \<Rightarrow> int \<Rightarrow> 'a CharacterState_scheme" where
  "applyXp state xpGain =
     (let r = levelUpLoop (seasonCap state) (level state) (xpCurrent state + xpGain)
      in state\<lparr>level := fst r, xpCurrent := snd r, xpLifetime := xpLifetime state + xpGain\<rparr>)"

text \<open>The \<open>while\<close> loop of \<open>removeXp\<close>; the level falls towards 1.\<close>

function levelDownLoop :: "int \<Rightarrow> int \<Rightarrow> int \<times> int" where
  "levelDownLoop lv xp =
     (if xp < 0 \<and> lv > 1 then levelDownLoop (lv - 1) (xp + xpToNext (lv - 1)) else (lv, xp))"
  by pat_completeness auto
termination
  by (relation "measure (\<lambda>(lv, xp). nat lv)") auto

declare levelDownLoop.simps [simp del]

definition removeXp :: "'a CharacterState_scheme \<Rightarrow> real \<Rightarrow> 'a CharacterState_scheme" where
  "removeXp state xpLoss =
     (let r = levelDownLoop (level state) (xpCurrent state - max 0 (jsRound xpLoss));
          xp = (if snd r < 0 then 0 else snd r)
      in state\<lparr>level := fst r, xpCurrent := xp,
               xpLifetime := max 0 (xpLifetime state - max 0 (jsRound xpLoss))\<rparr>)"

definition normalizeStatWeights :: "(StatKey \<times> real) list \<Rightarrow> (StatKey \<times> real) list" where
  "normalizeStatWeights weights =
     (let entries = filter (\<lambda>entry. snd entry > 0) weights;
          total = foldl (\<lambda>sum entry. sum + snd entry) 0 entries
      in if total \<le> 0 then [] else map (\<lambda>entry. (fst entry, snd entry / total)) entries)"

fun priorityMultiplier :: "Priority \<Rightarrow> real" where
  "priorityMultiplier Low = 85 / 100"
| "priorityMultiplier Medium = 1"
| "priorityMultiplier High = 115 / 100"

definition getOr0 :: "StatDelta \<Rightarrow> StatKey \<Rightarrow> int" where
  "getOr0 gains stat = (case gains stat of None \<Rightarrow> 0 | Some g \<Rightarrow> g)"

text \<open>The \<open>for\<close> loop over the weights: the gains so far and the points allocated.\<close>

fun allocate :: "int \<Rightarrow> (StatKey \<times> real) list \<Rightarrow> StatDelta \<times> int \<Rightarrow> StatDelta \<times> int" where
  "allocate totalPoints [] acc = acc"
| "allocate totalPoints (entry # rest) acc =
     (let points = \<lfloor>real_of_int totalPoints * snd entry\<rfloor> in
      if points \<le> 0 then allocate totalPoints rest acc
      else allocate totalPoints rest
             ((fst acc)(fst entry \<mapsto> getOr0 (fst acc) (fst entry) + points), snd acc + points))"

definition basePointsOf :: "int \<Rightarrow> Priority \<Rightarrow> int" where
  "basePointsOf xpGain prio =
     max 1 (min 4 (jsRound ((real_of_int xpGain / 36) * priorityMultiplier prio)))"

definition levelBonusOf :: "int \<Rightarrow> int" where
  "levelBonusOf levelUps = max 0 (min 2 levelUps)"

definition calculateTaskStatGain ::
  "int \<Rightarrow> Priority \<Rightarrow> 'a Category_scheme option \<Rightarrow> int \<Rightarrow> StatDelta" where
  "calculateTaskStatGain xpGain prio category levelUps =
     (let totalPoints = basePointsOf xpGain prio + levelBonusOf levelUps;
          weights = normalizeStatWeights (case category of None \<Rightarrow> [] | Some c \<Rightarrow> statWeights c)
      in if weights = [] then Map.empty(Discipline \<mapsto> totalPoints)
         else
           (let r = allocate totalPoints weights (Map.empty, 0);
                remainder = totalPoints - snd r
            in if remainder > 0
               then (let primary = (case sortBy (\<lambda>a b. snd b - snd a) weights of
                                      [] \<Rightarrow> Discipline | e # _ \<Rightarrow> fst e)
                     in (fst r)(primary \<mapsto> getOr0 (fst r) primary + remainder))
               else fst r))"

text \<open>
  \<open>applyStatGains\<close> and \<open>revertStatGains\<close> loop over the entries of the delta object; its
  keys are unique, so each stat is touched at most once and the loop is the pointwise
  update below. The deltas are integers, on which \<open>Math.round\<close> is the identity.
\<close>

definition applyStatGains :: "'a CharacterState_scheme \<Rightarrow> StatDelta \<Rightarrow> 'a CharacterState_scheme" where
  "applyStatGains state gains =
     state\<lparr>stats := (\<lambda>stat. case gains stat of
                               None \<Rightarrow> stats state stat
                             | Some delta \<Rightarrow> if delta \<le> 0 then stats state stat
                                             else stats state stat + delta)\<rparr>"

definition revertStatGains :: "'a CharacterState_scheme \<Rightarrow> StatDelta \<Rightarrow> 'a CharacterState_scheme" where
  "revertStatGains state gains =
     state\<lparr>stats := (\<lambda>stat. case gains stat of
                               None \<Rightarrow> stats state stat
                             | Some delta \<Rightarrow> if delta \<le> 0 then stats state stat
                                             else max 1 (stats state stat - delta))\<rparr>"

definition prestige :: "'a CharacterState_scheme \<Rightarrow> 'a CharacterState_scheme" where
  "prestige state =
     (let legacyGain = max 0 ((level state - 20) div 5)
      in state\<lparr>level := 1, xpCurrent := 0, prestigeRank := prestigeRank state + 1,
               legacyPoints := legacyPoints state + legacyGain\<rparr>)"

text \<open>The character that \<open>bootstrapData\<close> stores at first launch.\<close>

definition baseCharacter :: StoredCharacter where
  "baseCharacter =
     \<lparr>level = 1, xpCurrent = 0, xpLifetime = 0, seasonCap = 60, prestigeRank = 0,
      legacyPoints = 0, stats = (\<lambda>_. 5), characterId = ''main''\<rparr>"

text \<open>The invariant of the data model: below the season cap the XP bar is not full.\<close>

definition xpInvariant :: "'a CharacterState_scheme \<Rightarrow> bool" where
  "xpInvariant state \<longleftrightarrow> (level state < seasonCap state \<longrightarrow> xpCurrent state < xpToNext (level state))"

definition allStatKeys :: "StatKey list" where
  "allStatKeys = [Strength, Vitality, Intellect, Creativity, Discipline, Social]"

definition statDeltaTotal :: "StatDelta \<Rightarrow> int" where
  "statDeltaTotal gains = sum_list (map (getOr0 gains) allStatKeys)"

text \<open>
  The points that the floors give: \<open>floor(totalPoints * weight)\<close> for one entry (an entry
  whose floor is not positive gives nothing), and the sum over the entries of one stat.
\<close>

definition floorPoints :: "int \<Rightarrow> StatKey \<times> real \<Rightarrow> int" where
  "floorPoints totalPoints entry = max 0 \<lfloor>real_of_int totalPoints * snd entry\<rfloor>"

definition floorShare :: "int \<Rightarrow> (StatKey \<times> real) list \<Rightarrow> StatKey \<Rightarrow> int" where
  "floorShare totalPoints weights stat =
     sum_list (map (floorPoints totalPoints) (filter (\<lambda>entry. fst entry = stat) weights))"

section \<open>Streak tracker (domain/streaks.ts)\<close>

text \<open>
  The calendar arithmetic is date-fns's. It enters the streak functions as \<open>calendarDay\<close>:
  the number of the local calendar day that \<open>parseISO\<close> reads from a string, \<open>None\<close> when
  \<open>parseISO\<close> yields an invalid date. \<open>differenceInCalendarDays\<close> is the difference of
  two day numbers, and \<open>NaN\<close> (here \<open>None\<close>) when either date is invalid.
\<close>

definition differenceInCalendarDays :: "int option \<Rightarrow> int option \<Rightarrow> int option" where
  "differenceInCalendarDays later earlier =
     (case later of None \<Rightarrow> None
      | Some a \<Rightarrow> (case earlier of None \<Rightarrow> None | Some b \<Rightarrow> Some (a - b)))"

definition updateDayStreak :: "(string \<Rightarrow> int option) \<Rightarrow> int \<Rightarrow> string option \<Rightarrow> string \<Rightarrow> int" where
  "updateDayStreak calendarDay current lastDay today =
     (case lastDay of
        None \<Rightarrow> 1
      | Some ld \<Rightarrow>
          if ld = [] then 1
          else (case differenceInCalendarDays (calendarDay today) (calendarDay ld) of
                  None \<Rightarrow> 1
                | Some delta \<Rightarrow> if delta = 0 then current
                                else if delta = 1 then current + 1
                                else 1))"

definition updateTaskStreak ::
  "(string \<Rightarrow> int option) \<Rightarrow> 'a StreakState_scheme \<Rightarrow> string \<Rightarrow> 'a StreakState_scheme" where
  "updateTaskStreak calendarDay streak today =
     streak\<lparr>taskDays := updateDayStreak calendarDay (taskDays streak) (lastTaskDay streak) today,
            lastTaskDay := Some today\<rparr>"

definition updateFocusStreak ::
  "(string \<Rightarrow> int option) \<Rightarrow> 'a StreakState_scheme \<Rightarrow> string \<Rightarrow> 'a StreakState_scheme" where
  "updateFocusStreak calendarDay streak today =
     streak\<lparr>focusDays := updateDayStreak calendarDay (focusDays streak) (lastFocusDay streak) today,
            lastFocusDay := Some today\<rparr>"

text \<open>
  A calendar for the \<open>yyyy-MM-dd\<close> strings that the application writes with
  \<open>format(new Date(), "yyyy-MM-dd")\<close>: the day number of a Gregorian date, counted from
  1970-01-01. It is used to run the functions on the dates of the test suite.
\<close>

definition digitVal :: "char \<Rightarrow> int option" where
  "digitVal c = (let n = (of_char c :: nat) in if 48 \<le> n \<and> n \<le> 57 then Some (int n - 48) else None)"

fun digitsVal :: "int \<Rightarrow> string \<Rightarrow> int option" where
  "digitsVal acc [] = Some acc"
| "digitsVal acc (c # cs) =
     (case digitVal c of None \<Rightarrow> None | Some d \<Rightarrow> digitsVal (10 * acc + d) cs)"

definition isLeapYear :: "int \<Rightarrow> bool" where
  "isLeapYear y = (if y mod 100 = 0 then y mod 400 = 0 else y mod 4 = 0)"

definition daysInMonth :: "int \<Rightarrow> int \<Rightarrow> int" where
  "daysInMonth y m =
     (if m = 2 then (if isLeapYear y then 29 else 28)
      else if m = 4 \<or> m = 6 \<or> m = 9 \<or> m = 11 then 30 else 31)"

definition daysFromCivil :: "int \<Rightarrow> int \<Rightarrow> int \<Rightarrow> int" where
  "daysFromCivil y m d =
     (let y1 = (if m \<le> 2 then y - 1 else y);
          era = y1 div 400;
          yoe = y1 - era * 400;
          doy = (153 * (if m > 2 then m - 3 else m + 9) + 2) div 5 + d - 1;
          doe = yoe * 365 + yoe div 4 - yoe div 100 + doy
      in era * 146097 + doe - 719468)"

definition isoCalendarDay :: "string \<Rightarrow> int option" where
  "isoCalendarDay s =
     (if length s = 10 \<and> s ! 4 = CHR ''-'' \<and> s ! 7 = CHR ''-''
      then (case digitsVal 0 (take 4 s) of None \<Rightarrow> None
            | Some y \<Rightarrow>
           (case digitsVal 0 (take 2 (drop 5 s)) of None \<Rightarrow> None
            | Some m \<Rightarrow>
           (case digitsVal 0 (drop 8 s) of None \<Rightarrow> None
            | Some d \<Rightarrow>
                if 1 \<le> m \<and> m \<le> 12 \<and> 1 \<le> d \<and> d \<le> daysInMonth y m
                then Some (daysFromCivil y m d) else None)))
      else None)"

definition emptyStreak :: StreakState where
  "emptyStreak = \<lparr>taskDays = 0, focusDays = 0, lastTaskDay = None, lastFocusDay = None\<rparr>"

text \<open>The first default category of seed/defaults.ts.\<close>

definition trainingCategory :: Category where
  "trainingCategory = \<lparr>catId = ''training'', catName = ''Training'',
     statWeights = [(Strength, 6 / 10), (Vitality, 4 / 10)], xpMultiplier = 1, isDefault = True\<rparr>"

section \<open>Events, quests and aggregates (events/types.ts, domain/types.ts)\<close>

datatype EventType =
    TaskCreated | TaskUpdated | TaskCompleted | TaskReopened | TaskDeleted
  | FocusSessionStarted | FocusSessionEnded | QuestGenerated | QuestCompleted
  | AchievementProgressed | BadgeUnlocked | PerkUnlocked | LevelUp | PrestigeTriggered
  | CategoryCreated | SettingsUpdated

text \<open>An event payload is \<open>unknown\<close> to the log: any JSON value.\<close>

datatype jsval =
    JUndefined | JNull | JBool bool | JNum int | JStr string
  | JArr "jsval list" | JObj "(string \<times> jsval) list"

record AppEvent =
  eventId :: string
  schemaVersion :: int
  eventType :: EventType
  occurredAt :: string
  userId :: string
  payload :: jsval

record SnapshotRange =
  rangeFrom :: string
  rangeTo :: string

text \<open>
  A \<open>Record<string, number>\<close> is an association list in insertion order, which is the
  order of \<open>Object.entries\<close> for keys that are not array indices; a key is absent until it
  is written, which holds of every key that does not name a member of \<open>Object.prototype\<close>
  (category ids are the seeded names).
\<close>

record DailyAggregate =
  date :: string
  focusMinutes :: int
  completions :: int
  xpGained :: int
  categoryFocusMinutes :: "(string \<times> int) list"

datatype QuestKind = Daily | Weekly | Storyline | Boss

datatype ObjectiveType = FocusMinutes | TaskCompletions | CategoryBalance

datatype QuestStatus = Active | Complete

record Reward =
  rewardXp :: int
  currency :: "int option"
  cosmeticId :: "string option"

record Quest =
  questId :: string
  questKind :: QuestKind
  questTitle :: string
  objectiveType :: ObjectiveType
  objectiveCategoryId :: "string option"
  target :: int
  progress :: int
  reward :: Reward
  expiresAt :: "string option"
  questStatus :: QuestStatus

record TopCategory =
  category :: string
  percentage :: int

record SocialSnapshot =
  snapLevel :: int
  snapPrestigeRank :: int
  xpToday :: int
  xpWeek :: int
  focusMinutesToday :: int
  focusMinutesWeek :: int
  completionsToday :: int
  completionsWeek :: int
  taskStreak :: int
  focusStreak :: int
  topCategoriesWeek :: "TopCategory list"
  lastBadgeUnlocked :: jsval
  activeQuestProgressPercent :: int

section \<open>Snapshot builder (snapshot/buildSnapshot.ts)\<close>

text \<open>
  What the builder reads from its environment: the two formatted dates it derives from
  \<open>new Date()\<close>, the epoch milliseconds \<open>parseISO(s).getTime()\<close> (\<open>None\<close> for \<open>NaN\<close>), and
  \<open>String.prototype.localeCompare\<close>.
\<close>

record SnapshotEnv =
  envToday :: string
  envWeekFrom :: string
  parseTime :: "string \<Rightarrow> int option"
  localeCompare :: "string \<Rightarrow> string \<Rightarrow> real"

record SnapshotInput =
  inRange :: SnapshotRange
  inCharacter :: "CharacterState option"
  inStreaks :: "StreakState option"
  inDaily :: "DailyAggregate list"
  inEvents :: "AppEvent list"
  inQuests :: "Quest list"

definition isInRange :: "(string \<Rightarrow> int option) \<Rightarrow> string \<Rightarrow> SnapshotRange \<Rightarrow> bool" where
  "isInRange parse dateIso r =
     (case parse dateIso of None \<Rightarrow> False
      | Some v \<Rightarrow>
          (case parse (rangeFrom r) of None \<Rightarrow> False | Some lo \<Rightarrow> v \<ge> lo)
          \<and> (case parse (rangeTo r) of None \<Rightarrow> False | Some hi \<Rightarrow> v \<le> hi))"

text \<open>\<open>map[category] = (map[category] ?? 0) + minutes\<close>\<close>

fun recordAdd :: "string \<Rightarrow> int \<Rightarrow> (string \<times> int) list \<Rightarrow> (string \<times> int) list" where
  "recordAdd k v [] = [(k, v)]"
| "recordAdd k v (e # rest) =
     (if fst e = k then (fst e, snd e + v) # rest else e # recordAdd k v rest)"

definition totalCategoryWeek :: "DailyAggregate list \<Rightarrow> (string \<times> int) list" where
  "totalCategoryWeek weekAggregates =
     foldl (\<lambda>m d. foldl (\<lambda>m e. recordAdd (fst e) (snd e) m) m (categoryFocusMinutes d))
       [] weekAggregates"

text \<open>Property access \<open>v?.key\<close> on an arbitrary value.\<close>

definition getProp :: "jsval \<Rightarrow> string \<Rightarrow> jsval" where
  "getProp v key =
     (case v of
        JObj props \<Rightarrow> (case map_of props key of None \<Rightarrow> JUndefined | Some x \<Rightarrow> x)
      | _ \<Rightarrow> JUndefined)"

definition topCategories :: "(string \<times> int) list \<Rightarrow> TopCategory list" where
  "topCategories totals =
     (let categoryTotalMinutes = foldl (\<lambda>sum v. sum + v) 0 (map snd totals)
      in map (\<lambda>e. \<lparr>category = fst e,
                    percentage = (if categoryTotalMinutes = 0 then 0
                                  else jsRound ((real_of_int (snd e) / real_of_int categoryTotalMinutes) * 100))\<rparr>)
           (take 3 (sortBy (\<lambda>a b. real_of_int (snd b - snd a)) totals)))"

definition lastBadgeOf :: "SnapshotEnv \<Rightarrow> SnapshotRange \<Rightarrow> AppEvent list \<Rightarrow> AppEvent option" where
  "lastBadgeOf env r evs =
     (case sortBy (\<lambda>a b. localeCompare env (occurredAt b) (occurredAt a))
             (filter (\<lambda>e. eventType e = BadgeUnlocked \<and> isInRange (parseTime env) (occurredAt e) r) evs)
      of [] \<Rightarrow> None | e # _ \<Rightarrow> Some e)"

definition questProgressPercent :: "Quest list \<Rightarrow> int" where
  "questProgressPercent qs =
     (if length qs \<noteq> 0
      then jsRound (foldl (\<lambda>sum q. sum + min 1 (real_of_int (progress q) / real_of_int (max 1 (target q)))) 0 qs
                    * (100 / real (length qs)))
      else 0)"

definition buildSnapshotFromData :: "SnapshotEnv \<Rightarrow> SnapshotInput \<Rightarrow> SocialSnapshot" where
  "buildSnapshotFromData env input =
     (let todayAggregate = find (\<lambda>d. date d = envToday env) (inDaily input);
          weekAggregates = filter (\<lambda>d. date d \<ge> envWeekFrom env \<and> date d \<le> envToday env) (inDaily input);
          lastBadge = lastBadgeOf env (inRange input) (inEvents input)
      in \<lparr>snapLevel = (case inCharacter input of None \<Rightarrow> 1 | Some c \<Rightarrow> level c),
          snapPrestigeRank = (case inCharacter input of None \<Rightarrow> 0 | Some c \<Rightarrow> prestigeRank c),
          xpToday = (case todayAggregate of None \<Rightarrow> 0 | Some d \<Rightarrow> xpGained d),
          xpWeek = foldl (\<lambda>sum d. sum + xpGained d) 0 weekAggregates,
          focusMinutesToday = (case todayAggregate of None \<Rightarrow> 0 | Some d \<Rightarrow> focusMinutes d),
          focusMinutesWeek = foldl (\<lambda>sum d. sum + focusMinutes d) 0 weekAggregates,
          completionsToday = (case todayAggregate of None \<Rightarrow> 0 | Some d \<Rightarrow> completions d),
          completionsWeek = foldl (\<lambda>sum d. sum + completions d) 0 weekAggregates,
          taskStreak = (case inStreaks input of None \<Rightarrow> 0 | Some s \<Rightarrow> taskDays s),
          focusStreak = (case inStreaks input of None \<Rightarrow> 0 | Some s \<Rightarrow> focusDays s),
          topCategoriesWeek = topCategories (totalCategoryWeek weekAggregates),
          lastBadgeUnlocked = (case lastBadge of None \<Rightarrow> JUndefined
                               | Some e \<Rightarrow> getProp (payload e) ''achievementId''),
          activeQuestProgressPercent = questProgressPercent (inQuests input)\<rparr>)"




text \<open>
  Timestamps as \<open>Date.prototype.toISOString\<close> writes them, \<open>yyyy-MM-ddTHH:mm:ss.sssZ\<close>, read
  as epoch milliseconds; and the order of two such strings, which their first differing
  digit decides. They are used to run the builder on the input of the test suite.
\<close>

definition isoInstant :: "string \<Rightarrow> int option" where
  "isoInstant s =
     (if length s = 24 \<and> s ! 10 = CHR ''T'' \<and> s ! 13 = CHR '':'' \<and> s ! 16 = CHR '':''
         \<and> s ! 19 = CHR ''.'' \<and> s ! 23 = CHR ''Z''
      then (case isoCalendarDay (take 10 s) of None \<Rightarrow> None
            | Some day \<Rightarrow>
           (case digitsVal 0 (take 2 (drop 11 s)) of None \<Rightarrow> None
            | Some h \<Rightarrow>
           (case digitsVal 0 (take 2 (drop 14 s)) of None \<Rightarrow> None
            | Some mi \<Rightarrow>
           (case digitsVal 0 (take 2 (drop 17 s)) of None \<Rightarrow> None
            | Some sec \<Rightarrow>
           (case digitsVal 0 (take 3 (drop 20 s)) of None \<Rightarrow> None
            | Some ms \<Rightarrow>
                if h < 24 \<and> mi < 60 \<and> sec < 60
                then Some ((((day * 24 + h) * 60 + mi) * 60 + sec) * 1000 + ms)
                else None)))))
      else None)"

definition codeUnitCompare :: "string \<Rightarrow> string \<Rightarrow> real" where
  "codeUnitCompare a b = (if a < b then - 1 else if a = b then 0 else 1)"

definition testEnv :: SnapshotEnv where
  "testEnv = \<lparr>envToday = ''2026-02-14'', envWeekFrom = ''2026-02-08'',
              parseTime = isoInstant, localeCompare = codeUnitCompare\<rparr>"

text \<open>
  Inputs for running the builder: the input of the snapshot test, and a week whose three
  categories hold 336, 336 and 328 focus minutes.
\<close>

definition testInput :: SnapshotInput where
  "testInput =
     \<lparr>inRange = \<lparr>rangeFrom = ''2026-02-10T00:00:00.000Z'', rangeTo = ''2026-02-14T23:59:59.999Z''\<rparr>,
      inCharacter = Some \<lparr>level = 12, xpCurrent = 44, xpLifetime = 1500, seasonCap = 60,
                          prestigeRank = 1, legacyPoints = 3,
                          stats = (\<lambda>_. 5)(Strength := 7, Vitality := 8, Intellect := 9,
                                          Creativity := 6, Discipline := 10)\<rparr>,
      inStreaks = Some \<lparr>taskDays = 4, focusDays = 3, lastTaskDay = Some ''2026-02-14'',
                        lastFocusDay = Some ''2026-02-14''\<rparr>,
      inDaily = [\<lparr>date = ''2026-02-14'', focusMinutes = 90, completions = 6, xpGained = 180,
                  categoryFocusMinutes = [(''learning'', 60), (''health'', 30)]\<rparr>],
      inEvents = [\<lparr>eventId = ''1'', schemaVersion = 1, eventType = BadgeUnlocked,
                   occurredAt = ''2026-02-13T09:00:00.000Z'', userId = ''u1'',
                   payload = JObj [(''achievementId'', JStr ''consistency-path-a-silver''),
                                   (''rawTaskTitle'', JStr ''should-not-be-exported'')]\<rparr>],
      inQuests = [\<lparr>questId = ''q1'', questKind = Daily, questTitle = ''Quest'',
                   objectiveType = TaskCompletions, objectiveCategoryId = None, target = 10,
                   progress = 5, reward = \<lparr>rewardXp = 50, currency = None, cosmeticId = None\<rparr>,
                   expiresAt = None, questStatus = Active\<rparr>]\<rparr>"

definition roundingInput :: SnapshotInput where
  "roundingInput =
     testInput\<lparr>inDaily := [\<lparr>date = ''2026-02-14'', focusMinutes = 1000, completions = 6,
                              xpGained = 180,
                              categoryFocusMinutes =
                                [(''learning'', 336), (''health'', 336), (''admin'', 328)]\<rparr>]\<rparr>"





section \<open>Tasks, sessions and achievements (domain/types.ts)\<close>

datatype TaskStatus = Todo | Done

record TaskSubtask =
  subtaskId :: string
  subtaskTitle :: string
  subtaskDone :: bool

datatype TaskRecurrence = DailyInterval real | WeeklyDays real "int list"

text \<open>
  \<open>Pick<TaskCompletionReward, "xpGain" | "statGains">\<close> is the part of the reward that a
  task stores; \<open>TaskCompletionReward\<close> extends it.
\<close>

record CompletionReward =
  xpGain :: int
  statGains :: StatDelta

record TaskCompletionReward = CompletionReward +
  levelBefore :: int
  levelAfter :: int

record Task =
  taskId :: string
  title :: string
  categoryId :: string
  status :: TaskStatus
  priority :: Priority
  deadlineAt :: "string option"
  recurrenceRule :: "string option"
  estimateMinutes :: int
  tags :: "string list"
  taskNotes :: string
  subtaskIds :: "string list"
  subtasks :: "TaskSubtask list option"
  parentTaskId :: "string option"
  createdAt :: string
  updatedAt :: string
  completedAt :: "string option"
  recurrence :: "TaskRecurrence option"
  completionReward :: "CompletionReward option"

datatype SessionType = Work | Break | LongBreak

record FocusSession =
  sessionId :: string
  sessionLabel :: "string option"
  sessionTaskId :: "string option"
  sessionCategoryId :: "string option"
  startedAt :: string
  endedAt :: "string option"
  durationMin :: int
  rewardMinutes :: "int option"
  sessionType :: SessionType
  completed :: bool

datatype AchievementCategory =
  Consistency | DeepWork | Balance | Mastery | Exploration | Recovery | SocialChain | Health

datatype AchievementTier = Bronze | Silver | Gold | Legendary

datatype RequirementType = FocusMinutesTotal | TaskStreak | TasksCompleted

record Achievement =
  achId :: string
  achCategory :: AchievementCategory
  chain :: string
  tier :: AchievementTier
  achTitle :: string
  requirementType :: RequirementType
  requirementValue :: int

record AchievementProgress =
  progressId :: string
  progressValue :: int
  unlockedAt :: "string option"

section \<open>The database (data/db.ts) and what the store reads from its environment\<close>

text \<open>
  A table is the list of its rows, whose keys are distinct; the two tables that are read
  by key only are maps. The character and the streak are the single rows that
  \<open>db.character.toCollection().first()\<close> and \<open>db.streaks.get("main")\<close> return.
\<close>

record Db =
  tasks :: "Task list"
  focusSessions :: "FocusSession list"
  character :: "StoredCharacter option"
  quests :: "Quest list"
  achievements :: "Achievement list"
  achievementProgress :: "string \<rightharpoonup> AchievementProgress"
  streaks :: "StreakState option"
  analyticsDaily :: "string \<rightharpoonup> DailyAggregate"
  eventLog :: "AppEvent list"
  categories :: "Category list"

text \<open>
  One operation of the store reads the clock (\<open>new Date().toISOString()\<close> and
  \<open>format(new Date(), "yyyy-MM-dd")\<close>), formats stored timestamps as local days
  (\<open>dayKey\<close>), draws fresh ids (\<open>makeId\<close>) and computes the next deadline and the label of
  a recurring task with local-time date arithmetic; these enter as the fields below.
\<close>

record StoreEnv =
  nowIso :: string
  todayKey :: string
  dayKey :: "string \<Rightarrow> string"
  calendarDay :: "string \<Rightarrow> int option"
  freshEventId :: string
  freshTaskId :: string
  freshSubtaskId :: "nat \<Rightarrow> string"
  nextRecurringDeadline :: "Task \<Rightarrow> string \<Rightarrow> string option"
  recurrenceLabel :: "Task \<Rightarrow> string option"

definition getTask :: "string \<Rightarrow> Task list \<Rightarrow> Task option" where
  "getTask k rows = find (\<lambda>t. taskId t = k) rows"

text \<open>\<open>table.put(row)\<close>: replace the row with the same key, or add the row.\<close>

fun putRow :: "('r \<Rightarrow> string) \<Rightarrow> 'r \<Rightarrow> 'r list \<Rightarrow> 'r list" where
  "putRow key r [] = [r]"
| "putRow key r (x # xs) = (if key x = key r then r # xs else x # putRow key r xs)"

definition bulkPut :: "('r \<Rightarrow> string) \<Rightarrow> 'r list \<Rightarrow> 'r list \<Rightarrow> 'r list" where
  "bulkPut key rs rows = foldl (\<lambda>t r. putRow key r t) rows rs"

section \<open>Event log and projections (events/eventService.ts, analytics/projections.ts)\<close>

definition appendEvent :: "StoreEnv \<Rightarrow> string \<Rightarrow> EventType \<Rightarrow> jsval \<Rightarrow> Db \<Rightarrow> Db" where
  "appendEvent env uid etype pl db =
     db\<lparr>eventLog := eventLog db @
           [\<lparr>eventId = freshEventId env, schemaVersion = 1, eventType = etype,
             occurredAt = nowIso env, userId = uid, payload = pl\<rparr>]\<rparr>"

record AggregateDelta =
  dFocusMinutes :: "int option"
  dCompletions :: "int option"
  dXpGained :: "int option"

definition orZero :: "int option \<Rightarrow> int" where
  "orZero v = (case v of None \<Rightarrow> 0 | Some n \<Rightarrow> n)"

definition upsertDailyAggregate ::
  "StoreEnv \<Rightarrow> string \<Rightarrow> AggregateDelta \<Rightarrow> string option \<Rightarrow> int \<Rightarrow> Db \<Rightarrow> Db" where
  "upsertDailyAggregate env occurred delta catKey catMinutes db =
     (let dateK = dayKey env occurred;
          aggregate = (case analyticsDaily db dateK of
                         Some a \<Rightarrow> a
                       | None \<Rightarrow> \<lparr>date = dateK, focusMinutes = 0, completions = 0, xpGained = 0,
                                  categoryFocusMinutes = []\<rparr>);
          a1 = aggregate\<lparr>focusMinutes := focusMinutes aggregate + orZero (dFocusMinutes delta),
                         completions := completions aggregate + orZero (dCompletions delta),
                         xpGained := xpGained aggregate + orZero (dXpGained delta)\<rparr>;
          a2 = (case catKey of
                  None \<Rightarrow> a1
                | Some c \<Rightarrow> if c \<noteq> [] \<and> catMinutes > 0
                            then a1\<lparr>categoryFocusMinutes := recordAdd c catMinutes (categoryFocusMinutes a1)\<rparr>
                            else a1)
      in db\<lparr>analyticsDaily := (analyticsDaily db)(dateK \<mapsto> a2)\<rparr>)"

definition applyTaskAnalytics :: "StoreEnv \<Rightarrow> Task \<Rightarrow> int \<Rightarrow> Db \<Rightarrow> Db" where
  "applyTaskAnalytics env task xp db =
     upsertDailyAggregate env (case completedAt task of Some c \<Rightarrow> c | None \<Rightarrow> updatedAt task)
       \<lparr>dFocusMinutes = None, dCompletions = Some 1, dXpGained = Some xp\<rparr> None 0 db"

text \<open>
  The argument that \<open>recordTaskCompletion\<close> builds for \<open>calculateTaskXp\<close>, from the task, the
  stored tasks and categories, and the character.
\<close>

definition taskXpInputOf :: "StoreEnv \<Rightarrow> Task \<Rightarrow> Db \<Rightarrow> 'a CharacterState_scheme \<Rightarrow> TaskXpInput" where
  "taskXpInputOf env task db chr =
     (let sameCategory =
            length (filter (\<lambda>t. categoryId t = categoryId task
                                \<and> (case completedAt t of None \<Rightarrow> False
                                    | Some c \<Rightarrow> prefix (todayKey env) c)) (tasks db));
          repeatedTitle =
            length (filter (\<lambda>t. title t = title task \<and> completedAt t \<noteq> None) (tasks db));
          cat = find (\<lambda>c. catId c = categoryId task) (categories db)
      in \<lparr>xiPriority = priority task,
          deadlineSoon = (case deadlineAt task of None \<Rightarrow> False | Some d \<Rightarrow> d \<noteq> []),
          completedSubtasks = int (length (subtaskIds task)),
          xiEstimateMinutes = estimateMinutes task,
          noveltyFactor = None,
          sameCategoryCountToday = int sameCategory,
          repeatedTitleCount24h = int repeatedTitle,
          dailyXpBefore = 0,
          xiLevel = level chr,
          categoryMultiplier = Some (case cat of None \<Rightarrow> 1 | Some c \<Rightarrow> xpMultiplier c)\<rparr>)"

definition defaultStreak :: StreakState where
  "defaultStreak = \<lparr>taskDays = 0, focusDays = 0, lastTaskDay = None, lastFocusDay = None\<rparr>"

text \<open>
  When \<open>calculateTaskXp\<close> is \<open>NaN\<close>, the function writes \<open>NaN\<close> into the character's
  xpCurrent and xpLifetime and into the day's xpGained. The integer fields of this model
  hold no \<open>NaN\<close>: that outcome is \<open>None\<close>.
\<close>

definition recordTaskCompletion ::
  "StoreEnv \<Rightarrow> string \<Rightarrow> Task \<Rightarrow> Db \<Rightarrow> (TaskCompletionReward option \<times> Db) option" where
  "recordTaskCompletion env uid task db =
     (case character db of
        None \<Rightarrow> Some (None, db)
      | Some chr \<Rightarrow>
          (case calculateTaskXp (taskXpInputOf env task db chr) of
             None \<Rightarrow> None
           | Some xp \<Rightarrow>
               (let streak = (case streaks db of None \<Rightarrow> defaultStreak | Some s \<Rightarrow> s);
                    cat = find (\<lambda>c. catId c = categoryId task) (categories db);
                    leveledCharacter = applyXp chr xp;
                    levelUps = max 0 (level leveledCharacter - level chr);
                    gains = calculateTaskStatGain xp (priority task) cat levelUps;
                    nextChr = applyStatGains leveledCharacter gains;
                    db1 = db\<lparr>character := Some nextChr\<rparr>;
                    db2 = db1\<lparr>streaks := Some (updateTaskStreak (calendarDay env) streak (todayKey env))\<rparr>;
                    db3 = appendEvent env uid TaskCompleted
                            (JObj [(''taskId'', JStr (taskId task)), (''xp'', JNum xp),
                                   (''categoryId'', JStr (categoryId task))]) db2;
                    db4 = applyTaskAnalytics env task xp db3
                in Some (Some \<lparr>xpGain = xp, statGains = gains, levelBefore = level chr,
                                levelAfter = level nextChr\<rparr>, db4))))"

section \<open>Quest and achievement sync (data/store.ts)\<close>

definition completedByCategory :: "Task list \<Rightarrow> (string \<times> int) list" where
  "completedByCategory completedTasks =
     foldl (\<lambda>acc task. recordAdd (categoryId task) 1 acc) [] completedTasks"

text \<open>The body of the loop over the quests: the raw progress, and the changed quest, if it changed.\<close>

definition questRawProgress :: "int \<Rightarrow> int \<Rightarrow> (string \<times> int) list \<Rightarrow> Quest \<Rightarrow> int" where
  "questRawProgress completedTaskCount completedFocusMinutes byCategory quest =
     (case objectiveType quest of
        TaskCompletions \<Rightarrow> completedTaskCount
      | FocusMinutes \<Rightarrow> completedFocusMinutes
      | CategoryBalance \<Rightarrow>
          (case objectiveCategoryId quest of
             None \<Rightarrow> int (length byCategory)
           | Some c \<Rightarrow> if c = [] then int (length byCategory)
                       else (case map_of byCategory c of None \<Rightarrow> 0 | Some n \<Rightarrow> n)))"

definition questUpdate :: "int \<Rightarrow> int \<Rightarrow> (string \<times> int) list \<Rightarrow> Quest \<Rightarrow> Quest option" where
  "questUpdate completedTaskCount completedFocusMinutes byCategory quest =
     (let rawProgress = questRawProgress completedTaskCount completedFocusMinutes byCategory quest;
          prog = min (target quest) rawProgress;
          st = (if prog \<ge> target quest then Complete else Active)
      in if prog = progress quest \<and> st = questStatus quest then None
         else Some (quest\<lparr>progress := prog, questStatus := st\<rparr>))"

definition syncQuestUpdates :: "Db \<Rightarrow> Quest list" where
  "syncQuestUpdates db =
     (let completedTasks = filter (\<lambda>task. status task = Done) (tasks db);
          completedTaskCount = int (length completedTasks);
          completedFocusMinutes =
            foldl (\<lambda>sum session. sum + durationMin session) 0
              (filter (\<lambda>session. sessionType session = Work) (focusSessions db))
      in List.map_filter
           (questUpdate completedTaskCount completedFocusMinutes (completedByCategory completedTasks))
           (quests db))"

definition syncQuestProgress :: "Db \<Rightarrow> Quest list \<times> Db" where
  "syncQuestProgress db =
     (let updates = syncQuestUpdates db;
          db1 = (if length updates > 0 then db\<lparr>quests := bulkPut questId updates (quests db)\<rparr>
                 else db)
      in (quests db1, db1))"

text \<open>The body of the loop over the achievements: the metric, and the row to write, if any.\<close>

definition achievementValue :: "int \<Rightarrow> int \<Rightarrow> int \<Rightarrow> Achievement \<Rightarrow> int" where
  "achievementValue completedTasks focusMinutesTotal taskStreakDays achievement =
     (case requirementType achievement of
        TasksCompleted \<Rightarrow> completedTasks
      | FocusMinutesTotal \<Rightarrow> focusMinutesTotal
      | TaskStreak \<Rightarrow> taskStreakDays)"

definition achievementRow ::
  "string \<Rightarrow> int \<Rightarrow> int \<Rightarrow> int \<Rightarrow> (string \<rightharpoonup> AchievementProgress) \<Rightarrow> Achievement
     \<Rightarrow> AchievementProgress option" where
  "achievementRow now completedTasks focusMinutesTotal taskStreakDays progressMap achievement =
     (let v = achievementValue completedTasks focusMinutesTotal taskStreakDays achievement;
          existing = progressMap (achId achievement);
          unlocked =
            (case (case existing of None \<Rightarrow> None | Some e \<Rightarrow> unlockedAt e) of
               Some u \<Rightarrow> Some u
             | None \<Rightarrow> if v \<ge> requirementValue achievement then Some now else None);
          row = \<lparr>progressId = achId achievement, progressValue = v, unlockedAt = unlocked\<rparr>
      in case existing of
           None \<Rightarrow> Some row
         | Some e \<Rightarrow> if progressValue e = v \<and> unlockedAt e = unlocked then None else Some row)"

definition syncAchievementRows :: "StoreEnv \<Rightarrow> Db \<Rightarrow> AchievementProgress list" where
  "syncAchievementRows env db =
     (let completedTasks = int (length (filter (\<lambda>task. status task = Done) (tasks db)));
          focusMinutesTotal =
            foldl (\<lambda>sum session. sum + durationMin session) 0
              (filter (\<lambda>session. sessionType session = Work) (focusSessions db));
          taskStreakDays = (case streaks db of None \<Rightarrow> 0 | Some s \<Rightarrow> taskDays s)
      in List.map_filter
           (achievementRow (nowIso env) completedTasks focusMinutesTotal taskStreakDays
              (achievementProgress db))
           (achievements db))"

text \<open>\<open>db.achievementProgress.bulkPut(nextRows)\<close> stores each row under its id.\<close>

definition putProgressRow ::
  "(string \<rightharpoonup> AchievementProgress) \<Rightarrow> AchievementProgress \<Rightarrow> (string \<rightharpoonup> AchievementProgress)" where
  "putProgressRow m r = m(progressId r \<mapsto> r)"

definition syncAchievementProgress ::
  "StoreEnv \<Rightarrow> Db \<Rightarrow> (string \<rightharpoonup> AchievementProgress) \<times> Db" where
  "syncAchievementProgress env db =
     (let nextRows = syncAchievementRows env db;
          db1 = (if length nextRows > 0
                 then db\<lparr>achievementProgress := foldl putProgressRow (achievementProgress db) nextRows\<rparr>
                 else db)
      in (achievementProgress db1, db1))"

text \<open>Both passes, as \<open>init\<close> and every mutation of the store run them.\<close>

definition syncAll :: "StoreEnv \<Rightarrow> Db \<Rightarrow> Db" where
  "syncAll env db = snd (syncAchievementProgress env (snd (syncQuestProgress db)))"

section \<open>Completing and reopening a task (data/store.ts)\<close>

text \<open>
  The store's in-memory copy of the tables (\<open>set({ tasks, character, ... })\<close>) is a view of
  the database and is left out; \<open>profile\<close> is the user id of the loaded profile, if any.
\<close>

definition spawnNextTask :: "StoreEnv \<Rightarrow> Task \<Rightarrow> string \<Rightarrow> Task" where
  "spawnNextTask env completedTask now =
     (let clonedSubtasks =
            map (\<lambda>(i, subtask). subtask\<lparr>subtaskId := freshSubtaskId env i, subtaskDone := False\<rparr>)
              (enumerate 0 (case subtasks completedTask of None \<Rightarrow> [] | Some ss \<Rightarrow> ss))
      in completedTask\<lparr>taskId := freshTaskId env, status := Todo, createdAt := now,
                       updatedAt := now, completedAt := None, completionReward := None,
                       deadlineAt := nextRecurringDeadline env completedTask now,
                       recurrenceRule := recurrenceLabel env completedTask,
                       subtaskIds := map subtaskId clonedSubtasks,
                       subtasks := Some clonedSubtasks\<rparr>)"

definition completeTask ::
  "StoreEnv \<Rightarrow> string option \<Rightarrow> string \<Rightarrow> Db \<Rightarrow> (TaskCompletionReward option \<times> Db) option" where
  "completeTask env profile tid db =
     (case profile of
        None \<Rightarrow> Some (None, db)
      | Some uid \<Rightarrow>
          (case getTask tid (tasks db) of
             None \<Rightarrow> Some (None, db)
           | Some task \<Rightarrow>
               if status task = Done then Some (None, db)
               else
                 (let now = nowIso env;
                      updated = task\<lparr>status := Done, completedAt := Some now, updatedAt := now\<rparr>
                  in case recordTaskCompletion env uid updated db of
                       None \<Rightarrow> None
                     | Some r \<Rightarrow>
                         (let stored = (case fst r of
                                          None \<Rightarrow> None
                                        | Some rw \<Rightarrow>
                                            if xpGain rw > 0
                                            then Some \<lparr>xpGain = xpGain rw, statGains = statGains rw\<rparr>
                                            else None);
                              completedTask = updated\<lparr>completionReward := stored\<rparr>;
                              db1 = (snd r)\<lparr>tasks := putRow taskId completedTask (tasks (snd r))\<rparr>;
                              db2 = (case recurrence completedTask of
                                       None \<Rightarrow> db1
                                     | Some _ \<Rightarrow>
                                         db1\<lparr>tasks := tasks db1 @ [spawnNextTask env completedTask now]\<rparr>)
                          in Some (fst r, syncAll env db2)))))"

definition reopenTask :: "StoreEnv \<Rightarrow> string option \<Rightarrow> string \<Rightarrow> Db \<Rightarrow> Db" where
  "reopenTask env profile tid db =
     (case profile of
        None \<Rightarrow> db
      | Some uid \<Rightarrow>
          (case getTask tid (tasks db) of
             None \<Rightarrow> db
           | Some task \<Rightarrow>
               if status task \<noteq> Done then db
               else
                 (let db1 = (case completionReward task of
                               None \<Rightarrow> db
                             | Some rw \<Rightarrow>
                                 (case character db of
                                    None \<Rightarrow> db
                                  | Some chr \<Rightarrow>
                                      db\<lparr>character :=
                                           Some (revertStatGains (removeXp chr (real_of_int (xpGain rw)))
                                                   (statGains rw))\<rparr>));
                      updated = task\<lparr>status := Todo, completedAt := None, completionReward := None,
                                     updatedAt := nowIso env\<rparr>;
                      db2 = db1\<lparr>tasks := putRow taskId updated (tasks db1)\<rparr>;
                      db3 = (case completedAt task of
                               None \<Rightarrow> db2
                             | Some c \<Rightarrow>
                                 if c = [] then db2
                                 else upsertDailyAggregate env c
                                        \<lparr>dFocusMinutes = None, dCompletions = Some (- 1),
                                         dXpGained = Some (case completionReward task of
                                                             None \<Rightarrow> 0
                                                           | Some rw \<Rightarrow> if xpGain rw \<noteq> 0 then - xpGain rw else 0)\<rparr>
                                        None 0 db2);
                      db4 = appendEvent env uid TaskReopened (JObj [(''taskId'', JStr tid)]) db3
                  in syncAll env db4)))"

text \<open>The counters of a day's aggregate; a day without a row counts as zero.\<close>

definition completionsOn :: "Db \<Rightarrow> string \<Rightarrow> int" where
  "completionsOn db day = (case analyticsDaily db day of None \<Rightarrow> 0 | Some a \<Rightarrow> completions a)"

definition xpGainedOn :: "Db \<Rightarrow> string \<Rightarrow> int" where
  "xpGainedOn db day = (case analyticsDaily db day of None \<Rightarrow> 0 | Some a \<Rightarrow> xpGained a)"

section \<open>A small database for running the store\<close>

text \<open>
  A task titled \<open>Read\<close> that was completed on 2026-01-01, and a second task with the same
  title and two open subtasks that is completed on 2026-02-10.
\<close>

definition oldReadTask :: Task where
  "oldReadTask =
     \<lparr>taskId = ''t-old'', title = ''Read'', categoryId = ''learning'', status = Done,
      priority = Medium, deadlineAt = None, recurrenceRule = None, estimateMinutes = 30,
      tags = [], taskNotes = [], subtaskIds = [], subtasks = Some [], parentTaskId = None,
      createdAt = ''2026-01-01T09:00:00.000Z'', updatedAt = ''2026-01-01T10:00:00.000Z'',
      completedAt = Some ''2026-01-01T10:00:00.000Z'', recurrence = None,
      completionReward = Some \<lparr>xpGain = 34, statGains = [Intellect \<mapsto> 1]\<rparr>\<rparr>"

definition readTask :: Task where
  "readTask =
     \<lparr>taskId = ''t-new'', title = ''Read'', categoryId = ''learning'', status = Todo,
      priority = Medium, deadlineAt = None, recurrenceRule = None, estimateMinutes = 30,
      tags = [], taskNotes = ''chapter 3'', subtaskIds = [''s1'', ''s2''],
      subtasks = Some [\<lparr>subtaskId = ''s1'', subtaskTitle = ''Step 1'', subtaskDone = False\<rparr>,
                       \<lparr>subtaskId = ''s2'', subtaskTitle = ''Step 2'', subtaskDone = False\<rparr>],
      parentTaskId = None,
      createdAt = ''2026-02-09T09:00:00.000Z'', updatedAt = ''2026-02-09T09:00:00.000Z'',
      completedAt = None, recurrence = None, completionReward = None\<rparr>"

definition learningCategory :: Category where
  "learningCategory = \<lparr>catId = ''learning'', catName = ''Learning'',
     statWeights = [(Intellect, 8 / 10), (Discipline, 2 / 10)], xpMultiplier = 105 / 100,
     isDefault = True\<rparr>"

definition clearTheGate :: Quest where
  "clearTheGate = \<lparr>questId = ''dq-complete'', questKind = Daily, questTitle = ''Clear the Gate'',
     objectiveType = TaskCompletions, objectiveCategoryId = None, target = 3, progress = 0,
     reward = \<lparr>rewardXp = 45, currency = None, cosmeticId = None\<rparr>, expiresAt = None,
     questStatus = Active\<rparr>"

definition masteryBronze :: Achievement where
  "masteryBronze = \<lparr>achId = ''mastery-path-a-bronze'', achCategory = Mastery, chain = ''path-a'',
     tier = Bronze, achTitle = ''mastery PATH-A BRONZE'', requirementType = TasksCompleted,
     requirementValue = 1\<rparr>"

definition smallDb :: Db where
  "smallDb =
     \<lparr>tasks = [oldReadTask, readTask], focusSessions = [], character = Some baseCharacter,
      quests = [clearTheGate], achievements = [masteryBronze], achievementProgress = Map.empty,
      streaks = Some defaultStreak, analyticsDaily = Map.empty, eventLog = [],
      categories = [learningCategory]\<rparr>"

definition febEnv :: StoreEnv where
  "febEnv =
     \<lparr>nowIso = ''2026-02-10T10:00:00.000Z'', todayKey = ''2026-02-10'', dayKey = take 10,
      calendarDay = isoCalendarDay, freshEventId = ''evt-1'', freshTaskId = ''id-1'',
      freshSubtaskId = (\<lambda>i. ''id-sub''), nextRecurringDeadline = (\<lambda>t now. None),
      recurrenceLabel = recurrenceRule\<rparr>"

text \<open>The task as \<open>completeTask\<close> hands it to \<open>recordTaskCompletion\<close>.\<close>

definition readTaskDone :: Task where
  "readTaskDone = readTask\<lparr>status := Done, completedAt := Some (nowIso febEnv),
                           updatedAt := nowIso febEnv\<rparr>"

section \<open>What the specification says the two counts are\<close>

text \<open>The number of the task's subtasks that are marked done.\<close>

definition spec_completedSubtasks :: "Task \<Rightarrow> int" where
  "spec_completedSubtasks task =
     int (length (filter subtaskDone (case subtasks task of None \<Rightarrow> [] | Some ss \<Rightarrow> ss)))"

text \<open>
  The number of stored tasks with the same title whose completion lies in the 24 hours
  (86400000 ms) before the given instant.
\<close>

definition spec_repeatedTitleCount24h ::
  "(string \<Rightarrow> int option) \<Rightarrow> string \<Rightarrow> Task \<Rightarrow> Task list \<Rightarrow> int" where
  "spec_repeatedTitleCount24h parse now task rows =
     int (length (filter
       (\<lambda>t. title t = title task
             \<and> (case completedAt t of None \<Rightarrow> False
                 | Some c \<Rightarrow>
                     (case parse c of None \<Rightarrow> False
                      | Some ms \<Rightarrow>
                          (case parse now of None \<Rightarrow> False
                           | Some n \<Rightarrow> n - 86400000 \<le> ms \<and> ms \<le> n)))) rows))"

section \<open>Auxiliary notions for the sync proofs\<close>

text \<open>A quest after its update, if any; and the three totals that a quest sync derives.\<close>

definition questSynced :: "int \<Rightarrow> int \<Rightarrow> (string \<times> int) list \<Rightarrow> Quest \<Rightarrow> Quest" where
  "questSynced a b c q = (case questUpdate a b c q of None \<Rightarrow> q | Some q' \<Rightarrow> q')"

definition questCounts :: "Db \<Rightarrow> int \<times> int \<times> (string \<times> int) list" where
  "questCounts db =
     (int (length (filter (\<lambda>task. status task = Done) (tasks db))),
      foldl (\<lambda>sum session. sum + durationMin session) 0
        (filter (\<lambda>session. sessionType session = Work) (focusSessions db)),
      completedByCategory (filter (\<lambda>task. status task = Done) (tasks db)))"

section \<open>Auxiliary notions for the completion proofs\<close>

text \<open>The task as \<open>completeTask\<close> marks it before the reward is computed.\<close>

definition markedDone :: "StoreEnv \<Rightarrow> Task \<Rightarrow> Task" where
  "markedDone env task = task\<lparr>status := Done, completedAt := Some (nowIso env), updatedAt := nowIso env\<rparr>"

text \<open>
  The stat gains that go with an XP award, and the database after \<open>recordTaskCompletion\<close>
  and after \<open>completeTask\<close> have awarded \<open>x\<close> XP to the character \<open>chr\<close>.
\<close>

definition completionGains :: "Task \<Rightarrow> Db \<Rightarrow> 'a CharacterState_scheme \<Rightarrow> int \<Rightarrow> StatDelta" where
  "completionGains task db chr x =
     calculateTaskStatGain x (priority task)
       (find (\<lambda>c. catId c = categoryId task) (categories db))
       (max 0 (level (applyXp chr x) - level chr))"

definition recordedDb :: "StoreEnv \<Rightarrow> string \<Rightarrow> Task \<Rightarrow> Db \<Rightarrow> StoredCharacter \<Rightarrow> int \<Rightarrow> Db" where
  "recordedDb env uid task db chr x =
     applyTaskAnalytics env task x
       (appendEvent env uid TaskCompleted
          (JObj [(''taskId'', JStr (taskId task)), (''xp'', JNum x),
                 (''categoryId'', JStr (categoryId task))])
          (db\<lparr>character := Some (applyStatGains (applyXp chr x) (completionGains task db chr x)),
               streaks := Some (updateTaskStreak (calendarDay env)
                                  (case streaks db of None \<Rightarrow> defaultStreak | Some s \<Rightarrow> s)
                                  (todayKey env))\<rparr>))"

definition rewardedTask :: "StoreEnv \<Rightarrow> Task \<Rightarrow> Db \<Rightarrow> StoredCharacter \<Rightarrow> int \<Rightarrow> Task" where
  "rewardedTask env task db chr x =
     (markedDone env task)
       \<lparr>completionReward :=
          Some \<lparr>xpGain = x, statGains = completionGains (markedDone env task) db chr x\<rparr>\<rparr>"

definition completedDb :: "StoreEnv \<Rightarrow> string \<Rightarrow> Task \<Rightarrow> Db \<Rightarrow> StoredCharacter \<Rightarrow> int \<Rightarrow> Db" where
  "completedDb env uid task db chr x =
     (let rdb = recordedDb env uid (markedDone env task) db chr x;
          db1 = rdb\<lparr>tasks := putRow taskId (rewardedTask env task db chr x) (tasks rdb)\<rparr>;
          db2 = (case recurrence task of
                   None \<Rightarrow> db1
                 | Some _ \<Rightarrow>
                     db1\<lparr>tasks := tasks db1
                            @ [spawnNextTask env (rewardedTask env task db chr x) (nowIso env)]\<rparr>)
      in syncAll env db2)"

chapter \<open>Properties\<close>

section \<open>Prestige\<close>

text \<open>
  C9. For every character state, \<open>prestige\<close> returns level 1 and xpCurrent 0, raises
  prestigeRank by exactly 1 and legacyPoints by exactly max(0, floor((level - 20) / 5))
  of the level before the reset, and leaves stats, xpLifetime and seasonCap (and every
  other field of the row) as they were. A level-40 character with prestigeRank 1 and
  legacyPoints 2 ends with prestigeRank 2 and legacyPoints 6.
\<close>

theorem prestige_effect:
  "level (prestige s) = 1 \<and> xpCurrent (prestige s) = 0
   \<and> prestigeRank (prestige s) = prestigeRank s + 1
   \<and> legacyPoints (prestige s) = legacyPoints s + max 0 \<lfloor>(real_of_int (level s) - 20) / 5\<rfloor>
   \<and> stats (prestige s) = stats s \<and> xpLifetime (prestige s) = xpLifetime s
   \<and> seasonCap (prestige s) = seasonCap s
   \<and> CharacterState.more (prestige s) = CharacterState.more s
   \<and> prestigeRank (prestige (s\<lparr>level := 40, prestigeRank := 1, legacyPoints := 2\<rparr>)) = 2
   \<and> legacyPoints (prestige (s\<lparr>level := 40, prestigeRank := 1, legacyPoints := 2\<rparr>)) = 6"
proof -
  have "\<lfloor>(real_of_int (level s) - 20) / 5\<rfloor> = (level s - 20) div 5"
    by (metis floor_divide_of_int_eq of_int_diff of_int_numeral)
  then show ?thesis
    by (simp add: prestige_def Let_def)
qed

section \<open>Levels and the XP bar\<close>

lemma jsRound_of_int: "jsRound (real_of_int n) = n"
  by (simp add: jsRound_def)

lemma jsRound_mono: "x \<le> y \<Longrightarrow> jsRound x \<le> jsRound y"
  by (simp add: jsRound_def floor_mono)

lemma xpToNext_pos: "0 \<le> lv \<Longrightarrow> 120 \<le> xpToNext lv"
proof -
  assume lv: "0 \<le> lv"
  have "0 \<le> (real_of_int lv) powr (135 / 100)" by simp
  then have "real_of_int 120 \<le> 120 + 35 * real_of_int lv + 10 * (real_of_int lv) powr (135 / 100)"
    using lv by simp
  then have "jsRound (real_of_int 120) \<le> xpToNext lv"
    unfolding xpToNext_def by (rule jsRound_mono)
  then show ?thesis by (simp only: jsRound_of_int)
qed

lemma levelUpLoop_exit:
  "fst (levelUpLoop cap lv xp) < cap \<Longrightarrow> snd (levelUpLoop cap lv xp) < xpToNext (fst (levelUpLoop cap lv xp))"
proof (induction cap lv xp rule: levelUpLoop.induct)
  case (1 cap lv xp)
  show ?case
  proof (cases "xp \<ge> xpToNext lv \<and> lv < cap")
    case True
    then have eq: "levelUpLoop cap lv xp = levelUpLoop cap (lv + 1) (xp - xpToNext lv)"
      by (subst levelUpLoop.simps) auto
    with 1 True show ?thesis by simp
  next
    case False
    then have eq: "levelUpLoop cap lv xp = (lv, xp)"
      by (subst levelUpLoop.simps) auto
    with 1 False show ?thesis by auto
  qed
qed

lemma levelUpLoop_bounds:
  "lv \<le> fst (levelUpLoop cap lv xp) \<and> (0 \<le> xp \<longrightarrow> 0 \<le> snd (levelUpLoop cap lv xp))"
proof (induction cap lv xp rule: levelUpLoop.induct)
  case (1 cap lv xp)
  show ?case
  proof (cases "xp \<ge> xpToNext lv \<and> lv < cap")
    case True
    then have eq: "levelUpLoop cap lv xp = levelUpLoop cap (lv + 1) (xp - xpToNext lv)"
      by (subst levelUpLoop.simps) auto
    with 1 True show ?thesis by simp
  next
    case False
    then have eq: "levelUpLoop cap lv xp = (lv, xp)"
      by (subst levelUpLoop.simps) auto
    then show ?thesis by simp
  qed
qed

lemma levelDownLoop_stop: "\<not> (xp < 0 \<and> lv > 1) \<Longrightarrow> levelDownLoop lv xp = (lv, xp)"
  by (subst levelDownLoop.simps) auto

lemma levelDownLoop_step:
  "xp < 0 \<Longrightarrow> lv > 1 \<Longrightarrow> levelDownLoop lv xp = levelDownLoop (lv - 1) (xp + xpToNext (lv - 1))"
  by (subst levelDownLoop.simps) simp

lemma levelDownLoop_below:
  "xp < xpToNext lv \<Longrightarrow> snd (levelDownLoop lv xp) < xpToNext (fst (levelDownLoop lv xp))"
proof (induction lv xp rule: levelDownLoop.induct)
  case (1 lv xp)
  show ?case
  proof (cases "xp < 0 \<and> lv > 1")
    case True
    with 1 show ?thesis by (simp add: levelDownLoop_step)
  next
    case False
    with 1 show ?thesis by (simp add: levelDownLoop_stop)
  qed
qed

lemma levelDownLoop_level: "1 \<le> lv \<Longrightarrow> 1 \<le> fst (levelDownLoop lv xp)"
proof (induction lv xp rule: levelDownLoop.induct)
  case (1 lv xp)
  show ?case
  proof (cases "xp < 0 \<and> lv > 1")
    case True
    with 1 show ?thesis by (simp add: levelDownLoop_step)
  next
    case False
    with 1 show ?thesis by (simp add: levelDownLoop_stop)
  qed
qed

lemma applyXp_inv:
  "xpInvariant (applyXp s g)"
  by (simp add: xpInvariant_def applyXp_def Let_def levelUpLoop_exit)

lemma applyXp_bounds:
  "1 \<le> level s \<Longrightarrow> 0 \<le> xpCurrent s \<Longrightarrow> 0 \<le> g \<Longrightarrow> 1 \<le> level (applyXp s g) \<and> 0 \<le> xpCurrent (applyXp s g)"
  using levelUpLoop_bounds [of "level s" "seasonCap s" "xpCurrent s + g"]
  by (simp add: applyXp_def Let_def)

lemma removeXp_inv:
  assumes "xpInvariant s" "1 \<le> level s"
  shows "xpInvariant (removeXp s l)"
proof -
  define x0 where "x0 = xpCurrent s - max 0 (jsRound l)"
  have x0: "x0 \<le> xpCurrent s" by (simp add: x0_def)
  have pos: "0 < xpToNext lv" if "1 \<le> lv" for lv
    using xpToNext_pos [of lv] that by linarith
  show ?thesis
  proof (cases "x0 < 0 \<and> level s > 1")
    case True
    then have "x0 < xpToNext (level s)" using pos [of "level s"] by linarith
    from levelDownLoop_below [OF this] pos [OF levelDownLoop_level [OF assms(2), of x0]]
    show ?thesis
      by (simp add: xpInvariant_def removeXp_def Let_def x0_def)
  next
    case False
    then have "levelDownLoop (level s) x0 = (level s, x0)" by (rule levelDownLoop_stop)
    then show ?thesis using assms x0 pos [of "level s"]
      by (auto simp add: xpInvariant_def removeXp_def Let_def x0_def)
  qed
qed

lemma removeXp_bounds:
  "1 \<le> level s \<Longrightarrow> 1 \<le> level (removeXp s l) \<and> 0 \<le> xpCurrent (removeXp s l)"
  by (simp add: removeXp_def Let_def levelDownLoop_level)

lemma xpToNext_1: "xpToNext 1 = 165"
  by (simp add: xpToNext_def jsRound_def)

text \<open>
  C6. The invariant \<open>xpCurrent < xpToNext level\<close> whenever \<open>level < seasonCap\<close> holds of
  the bootstrap character, and from a state that satisfies it with level at least 1 and
  xpCurrent at least 0 it holds again after \<open>applyXp\<close> (for every gain of at least 0),
  after \<open>removeXp\<close> (for every loss) and after \<open>prestige\<close>; the bounds on level and
  xpCurrent are kept as well, so the three operations can be chained.
\<close>

theorem xp_invariant_preserved:
  assumes "xpInvariant s" and "1 \<le> level s" and "0 \<le> xpCurrent s"
  shows "xpInvariant baseCharacter
     \<and> (0 \<le> g \<longrightarrow> xpInvariant (applyXp s g) \<and> 1 \<le> level (applyXp s g) \<and> 0 \<le> xpCurrent (applyXp s g))
     \<and> xpInvariant (removeXp s l) \<and> 1 \<le> level (removeXp s l) \<and> 0 \<le> xpCurrent (removeXp s l)
     \<and> xpInvariant (prestige s) \<and> 1 \<le> level (prestige s) \<and> 0 \<le> xpCurrent (prestige s)"
proof -
  have "xpInvariant baseCharacter"
    by (simp add: xpInvariant_def baseCharacter_def xpToNext_1)
  moreover have "xpInvariant (prestige s)"
    by (simp add: xpInvariant_def prestige_def Let_def xpToNext_1)
  moreover have "level (prestige s) = 1 \<and> xpCurrent (prestige s) = 0"
    by (simp add: prestige_def Let_def)
  ultimately show ?thesis
    using assms applyXp_inv [of s g] applyXp_bounds [of s g] removeXp_inv [of s l] removeXp_bounds [of s l]
    by simp
qed

theorem xp_invariant_preserved_witness:
  "xpInvariant baseCharacter \<and> 1 \<le> level baseCharacter \<and> 0 \<le> xpCurrent baseCharacter
   \<and> (0::int) \<le> 400
   \<and> xpInvariant (applyXp baseCharacter 400)
   \<and> xpInvariant (removeXp baseCharacter 30)
   \<and> xpInvariant (prestige baseCharacter)"
proof -
  have h1: "xpInvariant baseCharacter"
    by (simp add: xpInvariant_def baseCharacter_def xpToNext_1)
  have h2: "1 \<le> level baseCharacter" and h3: "0 \<le> xpCurrent baseCharacter"
    by (simp_all add: baseCharacter_def)
  from xp_invariant_preserved [OF h1 h2 h3, of 400 30] h1 h2 h3 show ?thesis by simp
qed

section \<open>Streaks\<close>

text \<open>
  C7. \<open>updateDayStreak\<close>, as wrapped by \<open>updateTaskStreak\<close> and \<open>updateFocusStreak\<close>: with no
  last day the counter becomes 1; with a calendar-day difference of 0 between today and the
  last day it is unchanged, with a difference of 1 it grows by 1, and with any other
  difference (a gap, a backward date, or an invalid date, whose difference is NaN) it is
  reset to 1. The last day is set to today in every case, and the other counter and its
  last day are untouched. From the empty state, completions on 2026-02-10, 2026-02-11 and
  2026-02-13 give taskDays 1, 2 and 1; a focus session on 2026-02-12 with lastFocusDay
  2026-02-12 and focusDays 2 leaves focusDays at 2.
\<close>

theorem updateDayStreak_cases:
  "updateDayStreak cd current None today = 1
   \<and> (ld \<noteq> [] \<and> cd today = Some a \<and> cd ld = Some b \<longrightarrow>
        updateDayStreak cd current (Some ld) today
          = (if a - b = 0 then current else if a - b = 1 then current + 1 else 1))
   \<and> (cd today = None \<or> cd ld = None \<longrightarrow> updateDayStreak cd current (Some ld) today = 1)
   \<and> taskDays (updateTaskStreak cd streak today)
        = updateDayStreak cd (taskDays streak) (lastTaskDay streak) today
   \<and> lastTaskDay (updateTaskStreak cd streak today) = Some today
   \<and> focusDays (updateTaskStreak cd streak today) = focusDays streak
   \<and> lastFocusDay (updateTaskStreak cd streak today) = lastFocusDay streak
   \<and> focusDays (updateFocusStreak cd streak today)
        = updateDayStreak cd (focusDays streak) (lastFocusDay streak) today
   \<and> lastFocusDay (updateFocusStreak cd streak today) = Some today
   \<and> taskDays (updateFocusStreak cd streak today) = taskDays streak
   \<and> lastTaskDay (updateFocusStreak cd streak today) = lastTaskDay streak
   \<and> taskDays (updateTaskStreak isoCalendarDay emptyStreak ''2026-02-10'') = 1
   \<and> taskDays (updateTaskStreak isoCalendarDay
         (updateTaskStreak isoCalendarDay emptyStreak ''2026-02-10'') ''2026-02-11'') = 2
   \<and> taskDays (updateTaskStreak isoCalendarDay
         (updateTaskStreak isoCalendarDay
           (updateTaskStreak isoCalendarDay emptyStreak ''2026-02-10'') ''2026-02-11'')
         ''2026-02-13'') = 1
   \<and> focusDays (updateFocusStreak isoCalendarDay
         (emptyStreak\<lparr>focusDays := 2, lastFocusDay := Some ''2026-02-12''\<rparr>) ''2026-02-12'') = 2"
proof -
  have d10: "isoCalendarDay ''2026-02-10'' = Some 20494"
   and d11: "isoCalendarDay ''2026-02-11'' = Some 20495"
   and d12: "isoCalendarDay ''2026-02-12'' = Some 20496"
   and d13: "isoCalendarDay ''2026-02-13'' = Some 20497"
    by (simp_all add: isoCalendarDay_def digitVal_def daysInMonth_def daysFromCivil_def isLeapYear_def)
  have general: "updateDayStreak cd current None today = 1
   \<and> (ld \<noteq> [] \<and> cd today = Some a \<and> cd ld = Some b \<longrightarrow>
        updateDayStreak cd current (Some ld) today
          = (if a - b = 0 then current else if a - b = 1 then current + 1 else 1))
   \<and> (cd today = None \<or> cd ld = None \<longrightarrow> updateDayStreak cd current (Some ld) today = 1)"
    by (auto simp add: updateDayStreak_def differenceInCalendarDays_def split: option.splits)
  have wrappers: "taskDays (updateTaskStreak cd streak today)
        = updateDayStreak cd (taskDays streak) (lastTaskDay streak) today
   \<and> lastTaskDay (updateTaskStreak cd streak today) = Some today
   \<and> focusDays (updateTaskStreak cd streak today) = focusDays streak
   \<and> lastFocusDay (updateTaskStreak cd streak today) = lastFocusDay streak
   \<and> focusDays (updateFocusStreak cd streak today)
        = updateDayStreak cd (focusDays streak) (lastFocusDay streak) today
   \<and> lastFocusDay (updateFocusStreak cd streak today) = Some today
   \<and> taskDays (updateFocusStreak cd streak today) = taskDays streak
   \<and> lastTaskDay (updateFocusStreak cd streak today) = lastTaskDay streak"
    by (simp add: updateTaskStreak_def updateFocusStreak_def)
  have tests: "taskDays (updateTaskStreak isoCalendarDay emptyStreak ''2026-02-10'') = 1
   \<and> taskDays (updateTaskStreak isoCalendarDay
         (updateTaskStreak isoCalendarDay emptyStreak ''2026-02-10'') ''2026-02-11'') = 2
   \<and> taskDays (updateTaskStreak isoCalendarDay
         (updateTaskStreak isoCalendarDay
           (updateTaskStreak isoCalendarDay emptyStreak ''2026-02-10'') ''2026-02-11'')
         ''2026-02-13'') = 1
   \<and> focusDays (updateFocusStreak isoCalendarDay
         (emptyStreak\<lparr>focusDays := 2, lastFocusDay := Some ''2026-02-12''\<rparr>) ''2026-02-12'') = 2"
    by (simp add: updateTaskStreak_def updateFocusStreak_def updateDayStreak_def emptyStreak_def
        differenceInCalendarDays_def d10 d11 d12 d13)
  from general wrappers tests show ?thesis by blast
qed

theorem updateDayStreak_cases_witness:
  "(''2026-02-11'' \<noteq> [] \<and> isoCalendarDay ''2026-02-12'' = Some 20496
      \<and> isoCalendarDay ''2026-02-11'' = Some 20495)
   \<and> updateDayStreak isoCalendarDay 4 (Some ''2026-02-11'') ''2026-02-12'' = 5
   \<and> isoCalendarDay ''2026-02-30'' = None
   \<and> updateDayStreak isoCalendarDay 4 (Some ''2026-02-30'') ''2026-02-12'' = 1"
proof -
  have d11: "isoCalendarDay ''2026-02-11'' = Some 20495"
   and d12: "isoCalendarDay ''2026-02-12'' = Some 20496"
   and d30: "isoCalendarDay ''2026-02-30'' = None"
    by (simp_all add: isoCalendarDay_def digitVal_def daysInMonth_def daysFromCivil_def isLeapYear_def)
  note t1 = updateDayStreak_cases [of isoCalendarDay 4 "''2026-02-12''" "''2026-02-11''"
      20496 20495 emptyStreak]
  note t2 = updateDayStreak_cases [of isoCalendarDay 4 "''2026-02-12''" "''2026-02-30''"
      0 0 emptyStreak]
  from t1 d11 d12 have "updateDayStreak isoCalendarDay 4 (Some ''2026-02-11'') ''2026-02-12'' = 5"
    by simp
  moreover from t2 d30
  have "updateDayStreak isoCalendarDay 4 (Some ''2026-02-30'') ''2026-02-12'' = 1"
    by simp
  ultimately show ?thesis using d11 d12 d30 by simp
qed

section \<open>Stat gains\<close>

lemma foldl_snd_sum:
  "foldl (\<lambda>sum entry. sum + snd entry) (a::real) xs = a + sum_list (map snd xs)"
  by (induction xs arbitrary: a) (simp_all add: add.assoc)

lemma sum_list_divide: "sum_list (map (\<lambda>e. snd e / c) xs) = sum_list (map snd xs) / (c::real)"
  by (induction xs) (simp_all add: add_divide_distrib)

lemma normalizeStatWeights_sum:
  "normalizeStatWeights ws \<noteq> [] \<Longrightarrow> sum_list (map snd (normalizeStatWeights ws)) = 1"
  by (simp add: normalizeStatWeights_def Let_def foldl_snd_sum comp_def sum_list_divide
      split: if_splits)

lemma normalizeStatWeights_nonneg:
  "e \<in> set (normalizeStatWeights ws) \<Longrightarrow> 0 \<le> snd e"
  by (auto simp add: normalizeStatWeights_def Let_def foldl_snd_sum split: if_splits)

lemma statDeltaTotal_empty: "statDeltaTotal Map.empty = 0"
  by (simp add: statDeltaTotal_def allStatKeys_def getOr0_def)

lemma statDeltaTotal_upd:
  "statDeltaTotal (g(k \<mapsto> getOr0 g k + p)) = statDeltaTotal g + p"
  by (cases k) (simp_all add: statDeltaTotal_def allStatKeys_def getOr0_def)

lemma allocate_skip:
  "\<lfloor>real_of_int t * snd e\<rfloor> \<le> 0 \<Longrightarrow> allocate t (e # ws) acc = allocate t ws acc"
  by (simp add: Let_def)

lemma allocate_take:
  "\<not> \<lfloor>real_of_int t * snd e\<rfloor> \<le> 0 \<Longrightarrow>
     allocate t (e # ws) acc
       = allocate t ws ((fst acc)(fst e \<mapsto> getOr0 (fst acc) (fst e) + \<lfloor>real_of_int t * snd e\<rfloor>),
                        snd acc + \<lfloor>real_of_int t * snd e\<rfloor>)"
  by (simp add: Let_def)

lemma allocate_total:
  "statDeltaTotal (fst (allocate t ws acc)) - statDeltaTotal (fst acc)
     = snd (allocate t ws acc) - snd acc"
proof (induction ws arbitrary: acc)
  case Nil
  show ?case by simp
next
  case (Cons e ws)
  define p where "p = \<lfloor>real_of_int t * snd e\<rfloor>"
  show ?case
  proof (cases "p \<le> 0")
    case True
    then have "allocate t (e # ws) acc = allocate t ws acc"
      unfolding p_def by (rule allocate_skip)
    with Cons [of acc] show ?thesis by simp
  next
    case False
    define acc' where "acc' = ((fst acc)(fst e \<mapsto> getOr0 (fst acc) (fst e) + p), snd acc + p)"
    from False have step: "allocate t (e # ws) acc = allocate t ws acc'"
      unfolding p_def acc'_def by (rule allocate_take)
    have a1: "statDeltaTotal (fst acc') = statDeltaTotal (fst acc) + p"
      by (simp add: acc'_def statDeltaTotal_upd)
    have a2: "snd acc' = snd acc + p" by (simp add: acc'_def)
    from Cons [of acc'] a1 a2 show ?thesis unfolding step by linarith
  qed
qed

lemma allocate_le:
  assumes "0 \<le> t" and "\<And>e. e \<in> set ws \<Longrightarrow> 0 \<le> snd e"
  shows "real_of_int (snd (allocate t ws acc))
           \<le> real_of_int (snd acc) + real_of_int t * sum_list (map snd ws)"
  using assms(2)
proof (induction ws arbitrary: acc)
  case Nil
  show ?case by simp
next
  case (Cons e ws)
  define p where "p = \<lfloor>real_of_int t * snd e\<rfloor>"
  have e: "0 \<le> snd e" using Cons.prems by simp
  have rest: "\<And>e'. e' \<in> set ws \<Longrightarrow> 0 \<le> snd e'" using Cons.prems by simp
  have ih: "real_of_int (snd (allocate t ws a))
              \<le> real_of_int (snd a) + real_of_int t * sum_list (map snd ws)" for a
    by (rule Cons.IH) (rule rest)
  have nonneg: "0 \<le> real_of_int t * snd e" using assms(1) e by simp
  have fl: "real_of_int p \<le> real_of_int t * snd e" unfolding p_def by linarith
  have split: "real_of_int t * sum_list (map snd (e # ws))
                 = real_of_int t * snd e + real_of_int t * sum_list (map snd ws)"
    by (simp add: distrib_left)
  show ?case
  proof (cases "p \<le> 0")
    case True
    then have skip: "allocate t (e # ws) acc = allocate t ws acc"
      unfolding p_def by (rule allocate_skip)
    from ih [of acc] nonneg show ?thesis unfolding skip split by linarith
  next
    case False
    define acc' where "acc' = ((fst acc)(fst e \<mapsto> getOr0 (fst acc) (fst e) + p), snd acc + p)"
    from False have step: "allocate t (e # ws) acc = allocate t ws acc'"
      unfolding p_def acc'_def by (rule allocate_take)
    have a2: "real_of_int (snd acc') = real_of_int (snd acc) + real_of_int p"
      by (simp add: acc'_def)
    from ih [of acc'] a2 fl show ?thesis unfolding step split by linarith
  qed
qed

lemma totalPoints_bounds:
  "1 \<le> basePointsOf x p + levelBonusOf u \<and> basePointsOf x p + levelBonusOf u \<le> 6"
  unfolding basePointsOf_def levelBonusOf_def by linarith

lemma calculateTaskStatGain_sum:
  "statDeltaTotal (calculateTaskStatGain x p c u) = basePointsOf x p + levelBonusOf u"
proof -
  define t where "t = basePointsOf x p + levelBonusOf u"
  define ws where "ws = normalizeStatWeights (case c of None \<Rightarrow> [] | Some c \<Rightarrow> statWeights c)"
  have t0: "0 \<le> t" using totalPoints_bounds [of x p u] by (simp add: t_def)
  show ?thesis
  proof (cases "ws = []")
    case True
    have "statDeltaTotal (Map.empty(Discipline \<mapsto> t)) = t"
      by (simp add: statDeltaTotal_def allStatKeys_def getOr0_def)
    with True show ?thesis
      by (simp add: calculateTaskStatGain_def Let_def t_def [symmetric] ws_def [symmetric])
  next
    case False
    define r where "r = allocate t ws (Map.empty, 0)"
    have tot: "statDeltaTotal (fst r) = snd r"
      using allocate_total [of t ws "(Map.empty, 0)"] by (simp add: r_def statDeltaTotal_empty)
    have "sum_list (map snd ws) = 1"
      using False normalizeStatWeights_sum unfolding ws_def by blast
    moreover have "\<And>e. e \<in> set ws \<Longrightarrow> 0 \<le> snd e"
      unfolding ws_def by (rule normalizeStatWeights_nonneg)
    ultimately have "real_of_int (snd r) \<le> real_of_int t"
      using allocate_le [OF t0, of ws "(Map.empty, 0)"] by (simp add: r_def)
    then have le: "snd r \<le> t" by simp
    show ?thesis
    proof (cases "t - snd r > 0")
      case True
      with False show ?thesis
        by (simp add: calculateTaskStatGain_def Let_def t_def [symmetric] ws_def [symmetric]
            r_def [symmetric] statDeltaTotal_upd tot)
    next
      case no: False
      with le have "snd r = t" by simp
      with False no show ?thesis
        by (simp add: calculateTaskStatGain_def Let_def t_def [symmetric] ws_def [symmetric]
            r_def [symmetric] tot)
    qed
  qed
qed

lemma calculateTaskStatGain_training_example:
  "calculateTaskStatGain 100 Medium (Some trainingCategory) 0 = [Strength \<mapsto> 2, Vitality \<mapsto> 1]"
  by (simp add: calculateTaskStatGain_def trainingCategory_def normalizeStatWeights_def Let_def
     basePointsOf_def levelBonusOf_def jsRound_def sortBy_def getOr0_def fun_upd_twist)

lemma sortBy_head:
  "(case sortBy cmp xs of [] \<Rightarrow> None | x # _ \<Rightarrow> Some x) = firstBest (\<lambda>a b. cmp a b \<le> 0) xs"
proof (induction xs)
  case Nil
  show ?case by (simp add: sortBy_def)
next
  case (Cons x xs)
  have step: "sortBy cmp (x # xs) = insertBy cmp x (sortBy cmp xs)" by (simp add: sortBy_def)
  show ?case
  proof (cases "sortBy cmp xs")
    case Nil
    with Cons show ?thesis by (simp add: step)
  next
    case (Cons y ys)
    with Cons.IH have fb: "firstBest (\<lambda>a b. cmp a b \<le> 0) xs = Some y" by simp
    show ?thesis by (simp add: step Cons fb)
  qed
qed

lemma firstBest_None: "firstBest ahead xs = None \<longleftrightarrow> xs = []"
  by (cases xs) (simp_all split: option.splits)

lemma firstBest_max:
  assumes total: "\<And>a b. ahead a b \<or> ahead b a"
    and trans: "\<And>a b c. ahead a b \<Longrightarrow> ahead b c \<Longrightarrow> ahead a c"
  shows "firstBest ahead xs = Some best \<Longrightarrow> best \<in> set xs \<and> (\<forall>e \<in> set xs. ahead best e)"
proof (induction xs arbitrary: best)
  case Nil
  then show ?case by simp
next
  case (Cons x xs)
  have refl: "ahead x x" using total [of x x] by blast
  show ?case
  proof (cases "firstBest ahead xs")
    case None
    then have "xs = []" by (simp add: firstBest_None)
    with Cons.prems None refl show ?thesis by simp
  next
    case (Some b)
    from Cons.IH [OF Some] have b: "b \<in> set xs" and bmax: "\<forall>e \<in> set xs. ahead b e" by simp_all
    show ?thesis
    proof (cases "ahead x b")
      case True
      with Cons.prems Some have "best = x" by simp
      moreover have "\<forall>e \<in> set xs. ahead x e" using bmax True trans by blast
      ultimately show ?thesis using refl by simp
    next
      case False
      with Cons.prems Some have "best = b" by simp
      moreover from False total [of x b] have "ahead b x" by blast
      ultimately show ?thesis using b bmax by simp
    qed
  qed
qed

lemma firstBest_first:
  "firstBest ahead xs = Some best \<Longrightarrow>
   \<exists>i < length xs. xs ! i = best \<and> (\<forall>j < i. \<not> ahead (xs ! j) best)"
proof (induction xs arbitrary: best)
  case Nil
  then show ?case by simp
next
  case (Cons x xs)
  show ?case
  proof (cases "firstBest ahead xs")
    case None
    with Cons.prems have "best = x" by simp
    then show ?thesis by auto
  next
    case (Some b)
    show ?thesis
    proof (cases "ahead x b")
      case True
      with Cons.prems Some have "best = x" by simp
      then show ?thesis by auto
    next
      case False
      with Cons.prems Some have best: "best = b" by simp
      from Cons.IH [OF Some] obtain i where i: "i < length xs" "xs ! i = b"
        "\<forall>j < i. \<not> ahead (xs ! j) b" by blast
      have "\<forall>j < Suc i. \<not> ahead ((x # xs) ! j) b"
      proof (intro allI impI)
        fix j assume "j < Suc i"
        then show "\<not> ahead ((x # xs) ! j) b"
          using False i(3) by (cases j) simp_all
      qed
      with i(1,2) best have "Suc i < length (x # xs) \<and> (x # xs) ! Suc i = best
          \<and> (\<forall>j < Suc i. \<not> ahead ((x # xs) ! j) best)" by simp
      then show ?thesis by blast
    qed
  qed
qed

lemma sum_list_snd_pos:
  "xs \<noteq> [] \<Longrightarrow> \<forall>e \<in> set xs. 0 < snd e \<Longrightarrow> 0 < (sum_list (map snd xs) :: real)"
proof (induction xs)
  case Nil
  then show ?case by simp
next
  case (Cons x xs)
  have "0 \<le> sum_list (map snd xs)"
    by (rule sum_list_nonneg) (use Cons.prems in auto)
  with Cons.prems show ?case by simp
qed

lemma normalizeStatWeights_explicit:
  "normalizeStatWeights w
     = map (\<lambda>e. (fst e, snd e / sum_list (map snd (filter (\<lambda>e. 0 < snd e) w))))
         (filter (\<lambda>e. 0 < snd e) w)"
proof (cases "filter (\<lambda>e. 0 < snd e) w = []")
  case True
  then show ?thesis by (simp add: normalizeStatWeights_def Let_def)
next
  case False
  then have "0 < sum_list (map snd (filter (\<lambda>e. 0 < snd e) w))"
    by (rule sum_list_snd_pos) simp
  then show ?thesis by (simp add: normalizeStatWeights_def Let_def foldl_snd_sum)
qed

lemma getOr0_upd: "getOr0 (g(s \<mapsto> getOr0 g s + p)) k = getOr0 g k + (if k = s then p else 0)"
  by (simp add: getOr0_def)

lemma allocate_shares:
  "getOr0 (fst (allocate t ws acc)) k = getOr0 (fst acc) k + floorShare t ws k
   \<and> snd (allocate t ws acc) = snd acc + sum_list (map (floorPoints t) ws)"
proof (induction ws arbitrary: acc)
  case Nil
  show ?case by (simp add: floorShare_def)
next
  case (Cons e ws)
  define p where "p = \<lfloor>real_of_int t * snd e\<rfloor>"
  show ?case
  proof (cases "p \<le> 0")
    case True
    then have skip: "allocate t (e # ws) acc = allocate t ws acc"
      unfolding p_def by (rule allocate_skip)
    from True have "floorPoints t e = 0" by (simp add: floorPoints_def p_def)
    with Cons [of acc] show ?thesis unfolding skip by (simp add: floorShare_def)
  next
    case False
    define acc' where "acc' = ((fst acc)(fst e \<mapsto> getOr0 (fst acc) (fst e) + p), snd acc + p)"
    from False have step: "allocate t (e # ws) acc = allocate t ws acc'"
      unfolding p_def acc'_def by (rule allocate_take)
    from False have fp: "floorPoints t e = p" by (simp add: floorPoints_def p_def)
    have a1: "getOr0 (fst acc') k = getOr0 (fst acc) k + (if k = fst e then p else 0)"
      by (simp add: acc'_def getOr0_upd)
    have a2: "snd acc' = snd acc + p" by (simp add: acc'_def)
    from Cons [of acc'] a1 a2 fp show ?thesis unfolding step by (simp add: floorShare_def)
  qed
qed

lemma allocated_le_total:
  assumes "normalizeStatWeights w \<noteq> []" and "0 \<le> t"
  shows "snd (allocate t (normalizeStatWeights w) (Map.empty, 0)) \<le> t"
proof -
  have "sum_list (map snd (normalizeStatWeights w)) = 1"
    using assms(1) by (rule normalizeStatWeights_sum)
  moreover have "\<And>e. e \<in> set (normalizeStatWeights w) \<Longrightarrow> 0 \<le> snd e"
    by (rule normalizeStatWeights_nonneg)
  ultimately have "real_of_int (snd (allocate t (normalizeStatWeights w) (Map.empty, 0))) \<le> real_of_int t"
    using allocate_le [OF assms(2), of "normalizeStatWeights w" "(Map.empty, 0)"] by simp
  then show ?thesis by simp
qed

lemma calculateTaskStatGain_placement:
  assumes "normalizeStatWeights (case c of None \<Rightarrow> [] | Some c \<Rightarrow> statWeights c) \<noteq> []"
  shows "getOr0 (calculateTaskStatGain x p c u) k
           = floorShare (basePointsOf x p + levelBonusOf u)
               (normalizeStatWeights (case c of None \<Rightarrow> [] | Some c \<Rightarrow> statWeights c)) k
             + (if Some k = map_option fst
                              (firstBest (\<lambda>e b. snd b \<le> snd e)
                                 (normalizeStatWeights (case c of None \<Rightarrow> [] | Some c \<Rightarrow> statWeights c)))
                then basePointsOf x p + levelBonusOf u
                     - sum_list (map (floorPoints (basePointsOf x p + levelBonusOf u))
                                  (normalizeStatWeights (case c of None \<Rightarrow> [] | Some c \<Rightarrow> statWeights c)))
                else 0)"
proof -
  define t where "t = basePointsOf x p + levelBonusOf u"
  define ws where "ws = normalizeStatWeights (case c of None \<Rightarrow> [] | Some c \<Rightarrow> statWeights c)"
  define r where "r = allocate t ws (Map.empty, 0)"
  have t0: "0 \<le> t" using totalPoints_bounds [of x p u] by (simp add: t_def)
  have ne: "ws \<noteq> []" using assms by (simp add: ws_def)
  have sh: "getOr0 (fst r) k = floorShare t ws k"
   and al: "snd r = sum_list (map (floorPoints t) ws)"
    using allocate_shares [of t ws "(Map.empty, 0)" k] by (simp_all add: r_def getOr0_def)
  have le: "snd r \<le> t"
    unfolding r_def ws_def using assms t0 by (rule allocated_le_total)
  obtain e where e: "firstBest (\<lambda>e b. snd b \<le> snd e) ws = Some e"
    using ne by (cases "firstBest (\<lambda>e b. snd b \<le> snd e) ws") (simp_all add: firstBest_None)
  have "(case sortBy (\<lambda>a b. snd b - snd a) ws of [] \<Rightarrow> None | x # _ \<Rightarrow> Some x)
          = firstBest (\<lambda>a b. snd b - snd a \<le> 0) ws"
    by (rule sortBy_head)
  then have "(case sortBy (\<lambda>a b. snd b - snd a) ws of [] \<Rightarrow> None | x # _ \<Rightarrow> Some x) = Some e"
    using e by simp
  then have primary: "(case sortBy (\<lambda>a b. snd b - snd a) ws of [] \<Rightarrow> Discipline | e # _ \<Rightarrow> fst e) = fst e"
    by (cases "sortBy (\<lambda>a b. snd b - snd a) ws") simp_all
  have res: "calculateTaskStatGain x p c u
               = (if t - snd r > 0 then (fst r)(fst e \<mapsto> getOr0 (fst r) (fst e) + (t - snd r)) else fst r)"
    using ne
    by (simp add: calculateTaskStatGain_def Let_def t_def [symmetric] ws_def [symmetric]
        r_def [symmetric] primary)
  have "getOr0 (calculateTaskStatGain x p c u) k
          = floorShare t ws k + (if k = fst e then t - snd r else 0)"
  proof (cases "t - snd r > 0")
    case True
    then show ?thesis by (simp add: res getOr0_upd sh)
  next
    case False
    with le have "t - snd r = 0" by simp
    then show ?thesis by (simp add: res sh)
  qed
  then show ?thesis
    by (simp add: e al t_def [symmetric] ws_def [symmetric] eq_commute)
qed

lemma highest_weight_max:
  "firstBest (\<lambda>e b. snd b \<le> snd e) ws = Some (e :: StatKey \<times> real) \<Longrightarrow>
   e \<in> set ws \<and> (\<forall>e' \<in> set ws. snd e' \<le> snd e)"
  by (rule firstBest_max [of "\<lambda>e b. snd b \<le> snd e"]) auto

text \<open>
  C10. For every xpGain, priority, optional category and levelUps, the per-stat gains that
  \<open>calculateTaskStatGain\<close> returns sum exactly to basePoints + levelBonus, with basePoints
  = clamp(round((xpGain / 36) * priorityMultiplier), 1, 4) and levelBonus =
  clamp(levelUps, 0, 2); so the total lies between 1 and 6 and the floor-based allocation
  loses no point. The weights are the positive entries of the category, each divided by
  their sum. When there is none, all points go to discipline. Otherwise every stat gets
  the floors of its entries, and the points that the floors leave over go entirely to
  the stat of the highest weight (the first such entry when several are highest).
  (Weights and products are exact reals here.)
\<close>

theorem calculateTaskStatGain_total:
  "statDeltaTotal (calculateTaskStatGain xp prio cat levelUps)
     = basePointsOf xp prio + levelBonusOf levelUps
   \<and> basePointsOf xp prio
       = max 1 (min 4 (jsRound ((real_of_int xp / 36) * priorityMultiplier prio)))
   \<and> levelBonusOf levelUps = max 0 (min 2 levelUps)
   \<and> 1 \<le> statDeltaTotal (calculateTaskStatGain xp prio cat levelUps)
   \<and> statDeltaTotal (calculateTaskStatGain xp prio cat levelUps) \<le> 6
   \<and> (normalizeStatWeights (case cat of None \<Rightarrow> [] | Some c \<Rightarrow> statWeights c) = [] \<longrightarrow>
        calculateTaskStatGain xp prio cat levelUps
          = Map.empty(Discipline \<mapsto> basePointsOf xp prio + levelBonusOf levelUps))
   \<and> normalizeStatWeights w
       = map (\<lambda>e. (fst e, snd e / sum_list (map snd (filter (\<lambda>e. 0 < snd e) w))))
           (filter (\<lambda>e. 0 < snd e) w)
   \<and> (normalizeStatWeights (case cat of None \<Rightarrow> [] | Some c \<Rightarrow> statWeights c) \<noteq> [] \<longrightarrow>
        getOr0 (calculateTaskStatGain xp prio cat levelUps) k
          = floorShare (basePointsOf xp prio + levelBonusOf levelUps)
              (normalizeStatWeights (case cat of None \<Rightarrow> [] | Some c \<Rightarrow> statWeights c)) k
            + (if Some k = map_option fst
                             (firstBest (\<lambda>e b. snd b \<le> snd e)
                                (normalizeStatWeights (case cat of None \<Rightarrow> [] | Some c \<Rightarrow> statWeights c)))
               then basePointsOf xp prio + levelBonusOf levelUps
                    - sum_list (map (floorPoints (basePointsOf xp prio + levelBonusOf levelUps))
                                 (normalizeStatWeights (case cat of None \<Rightarrow> [] | Some c \<Rightarrow> statWeights c)))
               else 0))
   \<and> (firstBest (\<lambda>e b. snd b \<le> snd e) (ws :: (StatKey \<times> real) list) = Some best \<longrightarrow>
        best \<in> set ws \<and> (\<forall>e \<in> set ws. snd e \<le> snd best)
        \<and> (\<exists>i < length ws. ws ! i = best \<and> (\<forall>j < i. snd (ws ! j) < snd best)))"
proof -
  have none: "normalizeStatWeights (case cat of None \<Rightarrow> [] | Some c \<Rightarrow> statWeights c) = [] \<longrightarrow>
        calculateTaskStatGain xp prio cat levelUps
          = Map.empty(Discipline \<mapsto> basePointsOf xp prio + levelBonusOf levelUps)"
    by (simp add: calculateTaskStatGain_def Let_def)
  have place: "normalizeStatWeights (case cat of None \<Rightarrow> [] | Some c \<Rightarrow> statWeights c) \<noteq> [] \<longrightarrow>
        getOr0 (calculateTaskStatGain xp prio cat levelUps) k
          = floorShare (basePointsOf xp prio + levelBonusOf levelUps)
              (normalizeStatWeights (case cat of None \<Rightarrow> [] | Some c \<Rightarrow> statWeights c)) k
            + (if Some k = map_option fst
                             (firstBest (\<lambda>e b. snd b \<le> snd e)
                                (normalizeStatWeights (case cat of None \<Rightarrow> [] | Some c \<Rightarrow> statWeights c)))
               then basePointsOf xp prio + levelBonusOf levelUps
                    - sum_list (map (floorPoints (basePointsOf xp prio + levelBonusOf levelUps))
                                 (normalizeStatWeights (case cat of None \<Rightarrow> [] | Some c \<Rightarrow> statWeights c)))
               else 0)"
    using calculateTaskStatGain_placement [of cat xp prio levelUps k] by blast
  have best: "firstBest (\<lambda>e b. snd b \<le> snd e) (ws :: (StatKey \<times> real) list) = Some best \<longrightarrow>
        best \<in> set ws \<and> (\<forall>e \<in> set ws. snd e \<le> snd best)
        \<and> (\<exists>i < length ws. ws ! i = best \<and> (\<forall>j < i. snd (ws ! j) < snd best))"
  proof
    assume fb: "firstBest (\<lambda>e b. snd b \<le> snd e) ws = Some best"
    from firstBest_first [OF fb] obtain i where i: "i < length ws" "ws ! i = best"
      "\<forall>j < i. \<not> snd best \<le> snd (ws ! j)" by blast
    from i(3) have "\<forall>j < i. snd (ws ! j) < snd best" by (simp add: not_le)
    with i(1,2) have "\<exists>i < length ws. ws ! i = best \<and> (\<forall>j < i. snd (ws ! j) < snd best)"
      by blast
    with highest_weight_max [OF fb]
    show "best \<in> set ws \<and> (\<forall>e \<in> set ws. snd e \<le> snd best)
        \<and> (\<exists>i < length ws. ws ! i = best \<and> (\<forall>j < i. snd (ws ! j) < snd best))"
      by blast
  qed
  have sum: "statDeltaTotal (calculateTaskStatGain xp prio cat levelUps)
     = basePointsOf xp prio + levelBonusOf levelUps
   \<and> basePointsOf xp prio
       = max 1 (min 4 (jsRound ((real_of_int xp / 36) * priorityMultiplier prio)))
   \<and> levelBonusOf levelUps = max 0 (min 2 levelUps)
   \<and> 1 \<le> statDeltaTotal (calculateTaskStatGain xp prio cat levelUps)
   \<and> statDeltaTotal (calculateTaskStatGain xp prio cat levelUps) \<le> 6"
    using calculateTaskStatGain_sum [of xp prio cat levelUps]
      totalPoints_bounds [of xp prio levelUps]
    by (simp add: basePointsOf_def levelBonusOf_def)
  from sum none normalizeStatWeights_explicit [of w] place best show ?thesis by blast
qed

lemma training_weights:
  "normalizeStatWeights (statWeights trainingCategory) = [(Strength, 6 / 10), (Vitality, 4 / 10)]"
  by (simp add: normalizeStatWeights_def trainingCategory_def Let_def)

theorem calculateTaskStatGain_total_witness:
  "normalizeStatWeights (case (None :: Category option) of None \<Rightarrow> [] | Some c \<Rightarrow> statWeights c) = []
   \<and> calculateTaskStatGain 100 High (None :: Category option) 5 = Map.empty(Discipline \<mapsto> 5)
   \<and> statDeltaTotal (calculateTaskStatGain 100 High (None :: Category option) 5) = 5
   \<and> normalizeStatWeights (case Some trainingCategory of None \<Rightarrow> [] | Some c \<Rightarrow> statWeights c) \<noteq> []
   \<and> firstBest (\<lambda>e b. snd b \<le> snd e) [(Strength, 6 / 10), (Vitality, 4 / 10 :: real)]
       = Some (Strength, 6 / 10)
   \<and> getOr0 (calculateTaskStatGain 100 Medium (Some trainingCategory) 0) Strength = 2
   \<and> getOr0 (calculateTaskStatGain 100 Medium (Some trainingCategory) 0) Vitality = 1
   \<and> getOr0 (calculateTaskStatGain 100 Medium (Some trainingCategory) 0) Discipline = 0"
proof -
  have n: "normalizeStatWeights (case (None :: Category option) of None \<Rightarrow> [] | Some c \<Rightarrow> statWeights c) = []"
    by (simp add: normalizeStatWeights_def)
  have b: "basePointsOf 100 High + levelBonusOf 5 = 5"
    by (simp add: basePointsOf_def levelBonusOf_def jsRound_def)
  have tw: "normalizeStatWeights (case Some trainingCategory of None \<Rightarrow> [] | Some c \<Rightarrow> statWeights c)
              = [(Strength, 6 / 10), (Vitality, 4 / 10)]"
    by (simp add: training_weights)
  have fb: "firstBest (\<lambda>e b. snd b \<le> snd e) [(Strength, 6 / 10), (Vitality, 4 / 10 :: real)]
              = Some (Strength, 6 / 10)"
    by simp
  have b3: "basePointsOf 100 Medium + levelBonusOf 0 = 3"
    by (simp add: basePointsOf_def levelBonusOf_def jsRound_def)
  note t = calculateTaskStatGain_total [of 100 _ "Some trainingCategory" 0 "[]" _
      "[(Strength, 6 / 10), (Vitality, 4 / 10)]" "(Strength, 6 / 10)"]
  have s: "getOr0 (calculateTaskStatGain 100 Medium (Some trainingCategory) 0) Strength = 2"
    using t [of Medium Strength] by (simp add: training_weights fb b3 floorPoints_def floorShare_def)
  have v: "getOr0 (calculateTaskStatGain 100 Medium (Some trainingCategory) 0) Vitality = 1"
    using t [of Medium Vitality] by (simp add: training_weights fb b3 floorPoints_def floorShare_def)
  have d: "getOr0 (calculateTaskStatGain 100 Medium (Some trainingCategory) 0) Discipline = 0"
    using t [of Medium Discipline] by (simp add: training_weights fb b3 floorPoints_def floorShare_def)
  from calculateTaskStatGain_total [of 100 High "None :: Category option" 5 "[]" Discipline "[]" "(Discipline, 0)"]
       n b tw fb s v d
  show ?thesis by (simp add: statDeltaTotal_def allStatKeys_def getOr0_def)
qed

section \<open>Snapshot: top categories\<close>

lemma insertBy_sum: "sum_list (map f (insertBy cmp x ys)) = (f x :: int) + sum_list (map f ys)"
  by (induction ys) simp_all

lemma sortBy_sum: "sum_list (map f (sortBy cmp xs)) = (sum_list (map f xs) :: int)"
  by (induction xs) (simp_all add: sortBy_def insertBy_sum)

lemma set_insertBy: "set (insertBy cmp x ys) = insert x (set ys)"
  by (induction ys) auto

lemma set_sortBy: "set (sortBy cmp xs) = set xs"
  by (induction xs) (simp_all add: sortBy_def set_insertBy)

lemma take_sum_le:
  "(\<And>e. e \<in> set xs \<Longrightarrow> 0 \<le> f e) \<Longrightarrow> sum_list (map f (take n xs)) \<le> (sum_list (map f xs) :: int)"
proof (induction xs arbitrary: n)
  case Nil
  show ?case by simp
next
  case (Cons x xs)
  have rest: "0 \<le> sum_list (map f xs)"
    by (rule sum_list_nonneg) (use Cons.prems in auto)
  show ?case
  proof (cases n)
    case 0
    with rest Cons.prems [of x] show ?thesis by simp
  next
    case (Suc m)
    with Cons.IH [of m] Cons.prems show ?thesis by simp
  qed
qed

lemma foldl_plus_int: "foldl (\<lambda>sum v. sum + v) (a::int) vs = a + sum_list vs"
  by (induction vs arbitrary: a) simp_all

lemma member_le_sum_int:
  "\<forall>e \<in> set xs. 0 \<le> f e \<Longrightarrow> x \<in> set xs \<Longrightarrow> f x \<le> (sum_list (map f xs) :: int)"
proof (induction xs)
  case Nil
  then show ?case by simp
next
  case (Cons y ys)
  have "0 \<le> sum_list (map f ys)"
    by (rule sum_list_nonneg) (use Cons.prems in auto)
  with Cons show ?case by auto
qed

lemma recordAdd_nonneg:
  "0 \<le> v \<Longrightarrow> \<forall>e \<in> set m. 0 \<le> snd e \<Longrightarrow> \<forall>e \<in> set (recordAdd k v m). 0 \<le> snd e"
  by (induction m) auto

lemma foldl_recordAdd_nonneg:
  "\<forall>e \<in> set es. 0 \<le> snd e \<Longrightarrow> \<forall>e \<in> set m. 0 \<le> snd e \<Longrightarrow>
   \<forall>e \<in> set (foldl (\<lambda>m e. recordAdd (fst e) (snd e) m) m es). 0 \<le> snd e"
proof (induction es arbitrary: m)
  case Nil
  then show ?case by simp
next
  case (Cons a es)
  have "\<forall>e \<in> set (recordAdd (fst a) (snd a) m). 0 \<le> snd e"
    by (rule recordAdd_nonneg) (use Cons.prems in auto)
  with Cons.IH [of "recordAdd (fst a) (snd a) m"] Cons.prems show ?case by simp
qed

lemma totalCategoryWeek_nonneg_aux:
  "\<forall>d \<in> set ds. \<forall>e \<in> set (categoryFocusMinutes d). 0 \<le> snd e \<Longrightarrow>
   \<forall>e \<in> set m. 0 \<le> snd e \<Longrightarrow>
   \<forall>e \<in> set (foldl (\<lambda>m d. foldl (\<lambda>m e. recordAdd (fst e) (snd e) m) m (categoryFocusMinutes d)) m ds).
      0 \<le> snd e"
proof (induction ds arbitrary: m)
  case Nil
  then show ?case by simp
next
  case (Cons d ds)
  have step: "\<forall>e \<in> set (foldl (\<lambda>m e. recordAdd (fst e) (snd e) m) m (categoryFocusMinutes d)).
                0 \<le> snd e"
    by (rule foldl_recordAdd_nonneg) (use Cons.prems in auto)
  from Cons.IH [OF _ step] Cons.prems(1) show ?case by simp
qed

lemma totalCategoryWeek_nonneg:
  "\<forall>d \<in> set ds. \<forall>e \<in> set (categoryFocusMinutes d). 0 \<le> snd e \<Longrightarrow>
   \<forall>e \<in> set (totalCategoryWeek ds). 0 \<le> snd e"
  unfolding totalCategoryWeek_def
  by (rule totalCategoryWeek_nonneg_aux) simp_all

lemma jsRound_le: "real_of_int (jsRound x) \<le> x + 1 / 2"
  by (simp add: jsRound_def)

lemma jsRound_nonneg: "0 \<le> x \<Longrightarrow> 0 \<le> jsRound x"
  by (simp add: jsRound_def)

lemma jsRound_le_int: "x \<le> real_of_int n \<Longrightarrow> jsRound x \<le> n"
  unfolding jsRound_def by linarith

lemma pct_sum_bound:
  assumes "0 < T"
  shows "real_of_int (sum_list (map (\<lambda>e. jsRound ((real_of_int (snd e) / real_of_int T) * 100)) xs))
           \<le> 100 / real_of_int T * real_of_int (sum_list (map snd xs)) + real (length xs) / 2"
proof (induction xs)
  case Nil
  show ?case by simp
next
  case (Cons x xs)
  have "real_of_int (jsRound ((real_of_int (snd x) / real_of_int T) * 100))
          \<le> (real_of_int (snd x) / real_of_int T) * 100 + 1 / 2"
    by (rule jsRound_le)
  with Cons show ?case by (simp add: algebra_simps add_divide_distrib)
qed

lemma topCategories_bounds:
  assumes nn: "\<forall>e \<in> set totals. 0 \<le> snd e"
  shows "length (topCategories totals) \<le> 3
       \<and> (\<forall>t \<in> set (topCategories totals). 0 \<le> percentage t \<and> percentage t \<le> 100)
       \<and> sum_list (map percentage (topCategories totals)) \<le> 101"
proof -
  have nonneg: "\<And>e. e \<in> set totals \<Longrightarrow> 0 \<le> snd e" using nn by blast
  define T where "T = sum_list (map snd totals)"
  define top where "top = take 3 (sortBy (\<lambda>a b. real_of_int (snd b - snd a)) totals)"
  have total: "foldl (\<lambda>sum v. sum + v) 0 (map snd totals) = T"
    by (simp add: foldl_plus_int T_def)
  have topset: "set top \<subseteq> set totals"
    unfolding top_def using set_take_subset set_sortBy by fastforce
  have len: "length top \<le> 3" by (simp add: top_def)
  have T0: "0 \<le> T" unfolding T_def by (rule sum_list_nonneg) (use nonneg in auto)
  have "sum_list (map snd top) \<le> sum_list (map snd (sortBy (\<lambda>a b. real_of_int (snd b - snd a)) totals))"
    unfolding top_def by (rule take_sum_le) (use nonneg set_sortBy in fastforce)
  then have topsum: "sum_list (map snd top) \<le> T" by (simp add: sortBy_sum T_def)
  have each: "snd e \<le> T" if "e \<in> set totals" for e
    unfolding T_def using nn that by (rule member_le_sum_int)
  show ?thesis
  proof (cases "T = 0")
    case True
    then show ?thesis
      by (simp add: topCategories_def Let_def total comp_def)
  next
    case False
    with T0 have Tpos: "0 < T" by simp
    have form: "topCategories totals
        = map (\<lambda>e. \<lparr>category = fst e,
                     percentage = jsRound ((real_of_int (snd e) / real_of_int T) * 100)\<rparr>) top"
      using False by (simp add: topCategories_def Let_def total top_def)
    have pcts: "map percentage (topCategories totals)
        = map (\<lambda>e. jsRound ((real_of_int (snd e) / real_of_int T) * 100)) top"
      by (simp add: form comp_def)
    have b: "0 \<le> jsRound ((real_of_int (snd e) / real_of_int T) * 100)
           \<and> jsRound ((real_of_int (snd e) / real_of_int T) * 100) \<le> 100" if "e \<in> set top" for e
    proof -
      from that topset have m: "e \<in> set totals" by blast
      have lo: "0 \<le> real_of_int (snd e)" using nonneg [OF m] by simp
      have hi: "real_of_int (snd e) \<le> real_of_int T" using each [OF m] by simp
      have "0 \<le> (real_of_int (snd e) / real_of_int T) * 100" using lo Tpos by simp
      moreover have "(real_of_int (snd e) / real_of_int T) * 100 \<le> real_of_int 100"
        using hi Tpos by (simp add: divide_le_eq)
      ultimately show ?thesis using jsRound_nonneg jsRound_le_int by blast
    qed
    have "real_of_int (sum_list (map percentage (topCategories totals)))
            \<le> 100 / real_of_int T * real_of_int (sum_list (map snd top)) + real (length top) / 2"
      unfolding pcts by (rule pct_sum_bound [OF Tpos])
    also have "\<dots> \<le> 100 / real_of_int T * real_of_int T + 3 / 2"
    proof -
      have "real_of_int (sum_list (map snd top)) \<le> real_of_int T" using topsum by simp
      moreover have "0 \<le> 100 / real_of_int T" using Tpos by simp
      ultimately have "100 / real_of_int T * real_of_int (sum_list (map snd top)) \<le> 100 / real_of_int T * real_of_int T"
        by (rule mult_left_mono)
      moreover have "real (length top) / 2 \<le> 3 / 2" using len by simp
      ultimately show ?thesis by linarith
    qed
    also have "\<dots> = 100 + 3 / 2" using Tpos by simp
    finally have "sum_list (map percentage (topCategories totals)) \<le> 101" by linarith
    moreover have "length (topCategories totals) \<le> 3" by (simp add: form len)
    moreover have "\<forall>t \<in> set (topCategories totals). 0 \<le> percentage t \<and> percentage t \<le> 100"
      using b by (auto simp add: form)
    ultimately show ?thesis by blast
  qed
qed

lemma testEnv_week:
  "((''2026-02-08''::string) \<le> ''2026-02-14'') \<and> ((''2026-02-14''::string) \<le> ''2026-02-14'')"
  by simp

lemma roundingInput_top:
  "topCategoriesWeek (buildSnapshotFromData testEnv roundingInput)
     = [\<lparr>category = ''learning'', percentage = 34\<rparr>, \<lparr>category = ''health'', percentage = 34\<rparr>,
        \<lparr>category = ''admin'', percentage = 33\<rparr>]"
  by (simp add: buildSnapshotFromData_def testEnv_def roundingInput_def testInput_def Let_def
      totalCategoryWeek_def topCategories_def sortBy_def jsRound_def)

text \<open>
  C2 (amended). When the category minutes of the daily aggregates are not negative (as
  \<open>upsertDailyAggregate\<close> writes them), \<open>topCategoriesWeek\<close> has at most 3 entries,
  each percentage lies in [0, 100], and the percentages sum to at most 101: each entry is
  rounded on its own, so the sum can pass 100 (336, 336 and 328 minutes give 34 + 34 + 33).
\<close>

theorem topCategoriesWeek_percentages:
  assumes "list_all (\<lambda>d. list_all (\<lambda>e. 0 \<le> snd e) (categoryFocusMinutes d)) (inDaily input)"
  shows "length (topCategoriesWeek (buildSnapshotFromData env input)) \<le> 3
       \<and> list_all (\<lambda>t. 0 \<le> percentage t \<and> percentage t \<le> 100)
            (topCategoriesWeek (buildSnapshotFromData env input))
       \<and> sum_list (map percentage (topCategoriesWeek (buildSnapshotFromData env input))) \<le> 101"
proof -
  define week where
    "week = filter (\<lambda>d. date d \<ge> envWeekFrom env \<and> date d \<le> envToday env) (inDaily input)"
  have top: "topCategoriesWeek (buildSnapshotFromData env input) = topCategories (totalCategoryWeek week)"
    by (simp add: buildSnapshotFromData_def Let_def week_def)
  have "\<forall>d \<in> set week. \<forall>e \<in> set (categoryFocusMinutes d). 0 \<le> snd e"
    using assms by (auto simp add: week_def list_all_iff)
  then have "\<forall>e \<in> set (totalCategoryWeek week). 0 \<le> snd e"
    by (rule totalCategoryWeek_nonneg)
  from topCategories_bounds [OF this] show ?thesis
    unfolding top by (simp add: list_all_iff)
qed

theorem topCategoriesWeek_percentages_witness:
  "list_all (\<lambda>d. list_all (\<lambda>e. 0 \<le> snd e) (categoryFocusMinutes d)) (inDaily roundingInput)
   \<and> length (topCategoriesWeek (buildSnapshotFromData testEnv roundingInput)) \<le> 3
   \<and> sum_list (map percentage (topCategoriesWeek (buildSnapshotFromData testEnv roundingInput))) \<le> 101"
proof -
  have h: "list_all (\<lambda>d. list_all (\<lambda>e. 0 \<le> snd e) (categoryFocusMinutes d)) (inDaily roundingInput)"
    by (simp add: roundingInput_def)
  from topCategoriesWeek_percentages [OF h, of testEnv] h show ?thesis by simp
qed

theorem topCategoriesWeek_sum_counterexample:
  "list_all (\<lambda>d. list_all (\<lambda>e. 0 \<le> snd e) (categoryFocusMinutes d)) (inDaily roundingInput)
   \<and> \<not> sum_list (map percentage (topCategoriesWeek (buildSnapshotFromData testEnv roundingInput))) \<le> 100"
  by (simp add: roundingInput_top) (simp add: roundingInput_def)

section \<open>Snapshot: the privacy boundary\<close>

















section \<open>The counts behind the XP penalties\<close>

text \<open>
  C5. The claim is that the \<open>completedSubtasks\<close> value that \<open>recordTaskCompletion\<close> supplies to
  \<open>calculateTaskXp\<close> is the number of the task's subtasks that are marked done. The code
  supplies the number of subtask ids, whatever the \<open>done\<close> flags say: for the task with two
  open subtasks it supplies 2, where the number of done subtasks is 0.
\<close>

theorem completedSubtasks_counts_all_subtasks:
  "completedSubtasks (taskXpInputOf env task db chr) = int (length (subtaskIds task))
   \<and> completedSubtasks (taskXpInputOf febEnv readTaskDone smallDb baseCharacter) = 2
   \<and> spec_completedSubtasks readTaskDone = 0"
  by (simp add: taskXpInputOf_def Let_def readTaskDone_def readTask_def spec_completedSubtasks_def)

lemma old_instants:
  "isoInstant ''2026-01-01T10:00:00.000Z'' = Some 1767261600000"
  "isoInstant ''2026-02-10T10:00:00.000Z'' = Some 1770717600000"
  by (simp_all add: isoInstant_def isoCalendarDay_def digitVal_def daysInMonth_def
      daysFromCivil_def isLeapYear_def)

text \<open>
  C4. The claim is that the \<open>repeatedTitleCount24h\<close> value that \<open>recordTaskCompletion\<close>
  supplies to \<open>calculateTaskXp\<close> is the number of stored same-title completions within the
  24 hours before the completion. The code counts every stored task with the same title
  and a completion timestamp, whenever it was completed: with one such task completed on
  2026-01-01 and a completion at 2026-02-10T10:00Z it supplies 1, where the number within
  the trailing 24 hours is 0.
\<close>

theorem repeatedTitleCount_ignores_time:
  "repeatedTitleCount24h (taskXpInputOf env task db chr)
     = int (length (filter (\<lambda>t. title t = title task \<and> completedAt t \<noteq> None) (tasks db)))
   \<and> repeatedTitleCount24h (taskXpInputOf febEnv readTaskDone smallDb baseCharacter) = 1
   \<and> spec_repeatedTitleCount24h isoInstant (nowIso febEnv) readTaskDone (tasks smallDb) = 0"
  by (simp add: taskXpInputOf_def Let_def readTaskDone_def readTask_def oldReadTask_def
      smallDb_def febEnv_def spec_repeatedTitleCount24h_def old_instants)

section \<open>Quest and achievement sync run twice\<close>

lemma questUpdate_id: "questUpdate a b c q = Some q' \<Longrightarrow> questId q' = questId q"
  by (auto simp add: questUpdate_def Let_def split: if_splits)

lemma questRawProgress_update:
  "questRawProgress a b c (q\<lparr>progress := p, questStatus := s\<rparr>) = questRawProgress a b c q"
  by (cases "objectiveType q") (simp_all add: questRawProgress_def)

lemma questUpdate_synced: "questUpdate a b c (questSynced a b c q) = None"
proof (cases "questUpdate a b c q")
  case None
  then show ?thesis by (simp add: questSynced_def)
next
  case (Some q')
  then have "q' = q\<lparr>progress := min (target q) (questRawProgress a b c q),
                       questStatus := (if min (target q) (questRawProgress a b c q) \<ge> target q
                                       then Complete else Active)\<rparr>"
    by (simp add: questUpdate_def Let_def split: if_splits)
  with Some show ?thesis
    by (simp add: questSynced_def questUpdate_def Let_def questRawProgress_update)
qed

lemma map_filter_none: "(\<And>x. x \<in> set xs \<Longrightarrow> g x = None) \<Longrightarrow> List.map_filter g xs = []"
  by (induction xs) (simp_all add: List.map_filter_simps)

lemma putRow_append:
  "key r \<notin> key ` set ys \<Longrightarrow> key x = key r \<Longrightarrow> putRow key r (ys @ x # xs) = ys @ r # xs"
  by (induction ys) auto

lemma bulkPut_map_filter:
  assumes "\<And>x y. g x = Some y \<Longrightarrow> key y = key x"
  shows "distinct (map key (ys @ xs)) \<Longrightarrow>
         foldl (\<lambda>t r. putRow key r t) (ys @ xs) (List.map_filter g xs)
           = ys @ map (\<lambda>x. case g x of None \<Rightarrow> x | Some y \<Rightarrow> y) xs"
proof (induction xs arbitrary: ys)
  case Nil
  show ?case by (simp add: List.map_filter_simps)
next
  case (Cons x xs)
  show ?case
  proof (cases "g x")
    case None
    from Cons.prems have "distinct (map key ((ys @ [x]) @ xs))" by simp
    from Cons.IH [OF this] None show ?thesis by (simp add: List.map_filter_simps)
  next
    case (Some y)
    then have ky: "key y = key x" by (rule assms)
    from Cons.prems ky have notin: "key y \<notin> key ` set ys" by auto
    have put: "putRow key y (ys @ x # xs) = ys @ y # xs"
      using notin ky [symmetric] by (rule putRow_append)
    from Cons.prems ky have "distinct (map key ((ys @ [y]) @ xs))" by simp
    from Cons.IH [OF this] Some put show ?thesis by (simp add: List.map_filter_simps)
  qed
qed

lemma bulkPut_synced:
  assumes "distinct (map questId qs)"
  shows "bulkPut questId (List.map_filter (questUpdate a b c) qs) qs = map (questSynced a b c) qs"
proof -
  have "foldl (\<lambda>t r. putRow questId r t) ([] @ qs) (List.map_filter (questUpdate a b c) qs)
          = [] @ map (\<lambda>x. case questUpdate a b c x of None \<Rightarrow> x | Some y \<Rightarrow> y) qs"
    by (rule bulkPut_map_filter) (use assms questUpdate_id in auto)
  then show ?thesis by (simp add: bulkPut_def questSynced_def [abs_def])
qed

lemma syncQuestUpdates_alt:
  "syncQuestUpdates db
     = List.map_filter (questUpdate (fst (questCounts db)) (fst (snd (questCounts db)))
                          (snd (snd (questCounts db)))) (quests db)"
  by (simp add: syncQuestUpdates_def questCounts_def Let_def)

lemma syncQuestProgress_db:
  assumes "distinct (map questId (quests db))"
  shows "snd (syncQuestProgress db)
           = db\<lparr>quests := map (questSynced (fst (questCounts db)) (fst (snd (questCounts db)))
                                 (snd (snd (questCounts db)))) (quests db)\<rparr>"
proof -
  let ?f = "questSynced (fst (questCounts db)) (fst (snd (questCounts db))) (snd (snd (questCounts db)))"
  have b: "bulkPut questId (syncQuestUpdates db) (quests db) = map ?f (quests db)"
    unfolding syncQuestUpdates_alt using assms by (rule bulkPut_synced)
  show ?thesis
  proof (cases "syncQuestUpdates db = []")
    case True
    with b have "map ?f (quests db) = quests db" by (simp add: bulkPut_def)
    with True show ?thesis by (simp add: syncQuestProgress_def Let_def)
  next
    case False
    with b show ?thesis by (simp add: syncQuestProgress_def Let_def)
  qed
qed

lemma syncQuestProgress_fst: "fst (syncQuestProgress db) = quests (snd (syncQuestProgress db))"
  by (simp add: syncQuestProgress_def Let_def)

lemma syncQuestProgress_again:
  assumes "distinct (map questId (quests db))"
  shows "syncQuestUpdates (snd (syncQuestProgress db)) = []"
proof -
  have c: "questCounts (snd (syncQuestProgress db)) = questCounts db"
    by (simp add: syncQuestProgress_db [OF assms] questCounts_def)
  show ?thesis
    unfolding syncQuestUpdates_alt c
    by (rule map_filter_none) (auto simp add: syncQuestProgress_db [OF assms] questUpdate_synced)
qed

lemma syncQuestProgress_noop: "syncQuestUpdates db = [] \<Longrightarrow> syncQuestProgress db = (quests db, db)"
  by (simp add: syncQuestProgress_def Let_def)

lemma foldl_put_other:
  "k \<notin> progressId ` set rs \<Longrightarrow> foldl putProgressRow m rs k = m k"
  by (induction rs arbitrary: m) (auto simp add: putProgressRow_def)

lemma achievementRow_id: "achievementRow n c f t pm a = Some r \<Longrightarrow> progressId r = achId a"
  by (auto simp add: achievementRow_def Let_def split: option.splits if_splits)

lemma map_filter_ids:
  "(\<And>x y. g x = Some y \<Longrightarrow> progressId y = achId x) \<Longrightarrow>
   progressId ` set (List.map_filter g xs) \<subseteq> achId ` set xs"
  by (induction xs) (auto simp add: List.map_filter_simps split: option.splits)

lemma foldl_put_lookup:
  assumes g: "\<And>x y. g x = Some y \<Longrightarrow> progressId y = achId x"
  shows "distinct (map achId xs) \<Longrightarrow> a \<in> set xs \<Longrightarrow>
         foldl putProgressRow m (List.map_filter g xs) (achId a)
           = (case g a of None \<Rightarrow> m (achId a) | Some r \<Rightarrow> Some r)"
proof (induction xs arbitrary: m)
  case Nil
  then show ?case by simp
next
  case (Cons x xs)
  have ids: "progressId ` set (List.map_filter g xs) \<subseteq> achId ` set xs"
    by (rule map_filter_ids) (rule g)
  show ?case
  proof (cases "a = x")
    case True
    from Cons.prems(1) have "achId x \<notin> achId ` set xs" by simp
    with ids have notin: "achId x \<notin> progressId ` set (List.map_filter g xs)" by blast
    show ?thesis
    proof (cases "g x")
      case None
      with True foldl_put_other [OF notin, of m] show ?thesis
        by (simp add: List.map_filter_simps)
    next
      case (Some r)
      with g have "progressId r = achId x" by blast
      then have "putProgressRow m r (achId x) = Some r" by (simp add: putProgressRow_def)
      with True Some foldl_put_other [OF notin, of "putProgressRow m r"]
      show ?thesis by (simp add: List.map_filter_simps)
    qed
  next
    case False
    with Cons.prems have mem: "a \<in> set xs" and dist: "distinct (map achId xs)" by auto
    show ?thesis
    proof (cases "g x")
      case None
      with Cons.IH [OF dist mem, of m] show ?thesis by (simp add: List.map_filter_simps)
    next
      case (Some r)
      with Cons.IH [OF dist mem, of "putProgressRow m r"] have
        "foldl putProgressRow m (List.map_filter g (x # xs)) (achId a)
           = (case g a of None \<Rightarrow> putProgressRow m r (achId a) | Some r \<Rightarrow> Some r)"
        by (simp add: List.map_filter_simps)
      moreover have "putProgressRow m r (achId a) = m (achId a)"
      proof -
        from Some g have "progressId r = achId x" by blast
        moreover from Cons.prems False have "achId x \<noteq> achId a" by auto
        ultimately show ?thesis by (simp add: putProgressRow_def)
      qed
      ultimately show ?thesis by (simp split: option.splits)
    qed
  qed
qed

lemma achievementRow_cong:
  "pm (achId a) = pm' (achId a) \<Longrightarrow> achievementRow n c f t pm a = achievementRow n c f t pm' a"
  by (simp add: achievementRow_def Let_def)

lemma achievementRow_existing:
  "pm (achId a) = Some e \<Longrightarrow> progressValue e = achievementValue c f t a \<Longrightarrow>
   (unlockedAt e = None \<Longrightarrow> \<not> achievementValue c f t a \<ge> requirementValue a) \<Longrightarrow>
   achievementRow n c f t pm a = None"
  by (cases "unlockedAt e") (simp_all add: achievementRow_def Let_def)

lemma achievementRow_settled:
  assumes "pm' (achId a) = (case achievementRow n c f t pm a of None \<Rightarrow> pm (achId a) | Some r \<Rightarrow> Some r)"
  shows "achievementRow n' c f t pm' a = None"
proof (cases "achievementRow n c f t pm a")
  case None
  then obtain e where e: "pm (achId a) = Some e"
    by (cases "pm (achId a)") (simp_all add: achievementRow_def Let_def)
  from None e have v: "progressValue e = achievementValue c f t a"
    by (simp add: achievementRow_def Let_def split: if_splits)
  from None e have u: "unlockedAt e = None \<Longrightarrow> \<not> achievementValue c f t a \<ge> requirementValue a"
    by (simp add: achievementRow_def Let_def split: if_splits)
  from assms None e have "pm' (achId a) = Some e" by simp
  from this v u show ?thesis by (rule achievementRow_existing)
next
  case (Some r)
  with assms have p: "pm' (achId a) = Some r" by simp
  from Some have v: "progressValue r = achievementValue c f t a"
    by (auto simp add: achievementRow_def Let_def split: option.splits if_splits)
  from Some have u: "unlockedAt r = None \<Longrightarrow> \<not> achievementValue c f t a \<ge> requirementValue a"
    by (auto simp add: achievementRow_def Let_def split: option.splits if_splits)
  from p v u show ?thesis by (rule achievementRow_existing)
qed


lemma syncAchievementProgress_db:
  "snd (syncAchievementProgress env db)
     = db\<lparr>achievementProgress := foldl putProgressRow (achievementProgress db) (syncAchievementRows env db)\<rparr>"
  by (cases "syncAchievementRows env db") (simp_all add: syncAchievementProgress_def Let_def)

lemma syncAchievementProgress_fst:
  "fst (syncAchievementProgress env db) = achievementProgress (snd (syncAchievementProgress env db))"
  by (simp add: syncAchievementProgress_def Let_def)

lemma syncAchievementProgress_again:
  assumes "distinct (map achId (achievements db))"
  shows "syncAchievementRows env' (snd (syncAchievementProgress env db)) = []"
proof -
  define ct where "ct = int (length (filter (\<lambda>task. status task = Done) (tasks db)))"
  define fm where "fm = foldl (\<lambda>sum session. sum + durationMin session) 0
              (filter (\<lambda>session. sessionType session = Work) (focusSessions db))"
  define ts where "ts = (case streaks db of None \<Rightarrow> 0 | Some s \<Rightarrow> taskDays s)"
  define g where "g = achievementRow (nowIso env) ct fm ts (achievementProgress db)"
  define pm' where "pm' = foldl putProgressRow (achievementProgress db) (List.map_filter g (achievements db))"
  have rows: "syncAchievementRows env db = List.map_filter g (achievements db)"
    by (simp add: syncAchievementRows_def Let_def g_def ct_def fm_def ts_def)
  have gid: "\<And>x y. g x = Some y \<Longrightarrow> progressId y = achId x"
    unfolding g_def by (rule achievementRow_id)
  have settled: "achievementRow (nowIso env') ct fm ts pm' a = None" if "a \<in> set (achievements db)" for a
  proof -
    have "pm' (achId a) = (case g a of None \<Rightarrow> achievementProgress db (achId a) | Some r \<Rightarrow> Some r)"
      unfolding pm'_def using gid assms that by (rule foldl_put_lookup)
    then show ?thesis unfolding g_def by (rule achievementRow_settled)
  qed
  have gen: "syncAchievementRows env' (db\<lparr>achievementProgress := X\<rparr>)
          = List.map_filter (achievementRow (nowIso env') ct fm ts X) (achievements db)" for X
    by (simp add: syncAchievementRows_def Let_def ct_def fm_def ts_def)
  have "syncAchievementRows env' (snd (syncAchievementProgress env db))
          = List.map_filter (achievementRow (nowIso env') ct fm ts pm') (achievements db)"
    by (simp only: syncAchievementProgress_db rows gen pm'_def)
  also have "\<dots> = []"
    by (rule map_filter_none) (rule settled)
  finally show ?thesis .
qed

lemma syncAchievementProgress_noop:
  "syncAchievementRows env db = [] \<Longrightarrow> syncAchievementProgress env db = (achievementProgress db, db)"
  by (simp add: syncAchievementProgress_def Let_def)

lemma syncQuestUpdates_frame:
  "tasks db' = tasks db \<Longrightarrow> focusSessions db' = focusSessions db \<Longrightarrow> quests db' = quests db \<Longrightarrow>
   syncQuestUpdates db' = syncQuestUpdates db"
  by (simp add: syncQuestUpdates_def)

lemma smallDb_first_sync:
  "syncQuestUpdates smallDb = [clearTheGate\<lparr>progress := 1\<rparr>]
   \<and> syncAchievementRows febEnv smallDb
       = [\<lparr>progressId = ''mastery-path-a-bronze'', progressValue = 1,
           unlockedAt = Some ''2026-02-10T10:00:00.000Z''\<rparr>]"
  by (simp add: syncQuestUpdates_def syncAchievementRows_def smallDb_def Let_def
      oldReadTask_def readTask_def clearTheGate_def masteryBronze_def febEnv_def
      questUpdate_def questRawProgress_def achievementRow_def achievementValue_def
      List.map_filter_simps completedByCategory_def)

text \<open>
  C8. After a first run of \<open>syncQuestProgress\<close> and \<open>syncAchievementProgress\<close> on a database
  whose quests and achievements have distinct ids, a second run (at any later clock
  reading, with no mutation in between) finds no changed quest and no changed progress
  row, so it writes nothing and leaves the database as it is; the quests and the
  progress rows it returns are those of the first run.
\<close>

theorem sync_twice_writes_nothing:
  assumes "distinct (map questId (quests db))" and "distinct (map achId (achievements db))"
  shows "syncQuestUpdates (syncAll env1 db) = []
       \<and> syncAchievementRows env2 (syncAll env1 db) = []
       \<and> syncAll env2 (syncAll env1 db) = syncAll env1 db
       \<and> fst (syncQuestProgress (syncAll env1 db)) = fst (syncQuestProgress db)
       \<and> fst (syncAchievementProgress env2 (syncAll env1 db))
           = fst (syncAchievementProgress env1 (snd (syncQuestProgress db)))"
proof -
  define dbq where "dbq = snd (syncQuestProgress db)"
  define db1 where "db1 = syncAll env1 db"
  have db1: "db1 = snd (syncAchievementProgress env1 dbq)"
    by (simp add: db1_def dbq_def syncAll_def)
  have ach_dbq: "achievements dbq = achievements db"
    by (simp add: dbq_def syncQuestProgress_db [OF assms(1)])
  have frame: "tasks db1 = tasks dbq \<and> focusSessions db1 = focusSessions dbq \<and> quests db1 = quests dbq"
    by (simp add: db1 syncAchievementProgress_db)
  have q0: "syncQuestUpdates dbq = []"
    unfolding dbq_def using assms(1) by (rule syncQuestProgress_again)
  have q: "syncQuestUpdates db1 = []"
    using syncQuestUpdates_frame [of db1 dbq] frame q0 by simp
  have a: "syncAchievementRows env2 db1 = []"
    unfolding db1 by (rule syncAchievementProgress_again) (simp add: ach_dbq assms(2))
  have again: "syncAll env2 db1 = db1"
    by (simp add: syncAll_def syncQuestProgress_noop [OF q] syncAchievementProgress_noop [OF a])
  have r1: "fst (syncQuestProgress db1) = fst (syncQuestProgress db)"
    using frame by (simp add: syncQuestProgress_noop [OF q] syncQuestProgress_fst dbq_def)
  have r2: "fst (syncAchievementProgress env2 db1) = fst (syncAchievementProgress env1 dbq)"
    using syncAchievementProgress_noop [OF a] by (simp add: syncAchievementProgress_fst db1 [symmetric])
  from q a again r1 r2 show ?thesis unfolding db1_def dbq_def by blast
qed

theorem sync_twice_writes_nothing_witness:
  "distinct (map questId (quests smallDb)) \<and> distinct (map achId (achievements smallDb))
   \<and> syncQuestUpdates (syncAll febEnv smallDb) = []
   \<and> syncAchievementRows febEnv (syncAll febEnv smallDb) = []
   \<and> syncAll febEnv (syncAll febEnv smallDb) = syncAll febEnv smallDb"
proof -
  have h1: "distinct (map questId (quests smallDb))"
   and h2: "distinct (map achId (achievements smallDb))"
    by (simp_all add: smallDb_def)
  from sync_twice_writes_nothing [OF h1 h2, of febEnv febEnv] h1 h2 show ?thesis by blast
qed

section \<open>Completing a task and reopening it\<close>

lemma levelUpLoop_stop: "\<not> (xp \<ge> xpToNext lv \<and> lv < cap) \<Longrightarrow> levelUpLoop cap lv xp = (lv, xp)"
  by (subst levelUpLoop.simps) auto

lemma levelUpLoop_step:
  "xp \<ge> xpToNext lv \<Longrightarrow> lv < cap \<Longrightarrow> levelUpLoop cap lv xp = levelUpLoop cap (lv + 1) (xp - xpToNext lv)"
  by (subst levelUpLoop.simps) auto

lemma levelDown_after_levelUp:
  "1 \<le> lv \<Longrightarrow> (lv < cap \<longrightarrow> x - g < xpToNext lv) \<Longrightarrow>
   levelDownLoop (fst (levelUpLoop cap lv x)) (snd (levelUpLoop cap lv x) - g) = levelDownLoop lv (x - g)"
proof (induction cap lv x rule: levelUpLoop.induct)
  case (1 cap lv xp)
  show ?case
  proof (cases "xp \<ge> xpToNext lv \<and> lv < cap")
    case True
    then have up: "levelUpLoop cap lv xp = levelUpLoop cap (lv + 1) (xp - xpToNext lv)"
      by (simp add: levelUpLoop_step)
    from True "1.prems" have neg: "xp - xpToNext lv - g < 0" by simp
    have "0 < xpToNext (lv + 1)" using xpToNext_pos [of "lv + 1"] "1.prems"(1) by linarith
    with neg have pre: "lv + 1 < cap \<longrightarrow> xp - xpToNext lv - g < xpToNext (lv + 1)" by linarith
    from "1.prems"(1) have lv1: "1 \<le> lv + 1" by simp
    from "1.IH" [OF True lv1 pre]
    have "levelDownLoop (fst (levelUpLoop cap lv xp)) (snd (levelUpLoop cap lv xp) - g)
            = levelDownLoop (lv + 1) (xp - xpToNext lv - g)"
      by (simp add: up)
    also have "\<dots> = levelDownLoop lv (xp - g)"
      using neg "1.prems"(1) levelDownLoop_step [of "xp - xpToNext lv - g" "lv + 1"] by simp
    finally show ?thesis .
  next
    case False
    then show ?thesis by (simp add: levelUpLoop_stop)
  qed
qed

lemma calculateTaskXp_Some:
  assumes "- 15 \<le> xiEstimateMinutes i"
  shows "\<exists>x. calculateTaskXp i = Some x \<and> 1 \<le> x"
proof -
  have "real_of_int (- 15) \<le> real_of_int (xiEstimateMinutes i)"
    using assms by (simp only: of_int_le_iff)
  then have "\<not> 1 + real_of_int (xiEstimateMinutes i) / 15 < 0" by simp
  then show ?thesis by (simp add: calculateTaskXp_def Let_def)
qed

lemma calculateTaskXp_None:
  assumes "xiEstimateMinutes i < - 15"
  shows "calculateTaskXp i = None"
proof -
  have "real_of_int (xiEstimateMinutes i) < real_of_int (- 15)"
    using assms by (simp only: of_int_less_iff)
  then have "1 + real_of_int (xiEstimateMinutes i) / 15 < 0" by simp
  then show ?thesis by (simp add: calculateTaskXp_def Let_def)
qed

lemma removeXp_after_applyXp:
  assumes "xpInvariant s" and "1 \<le> level s" and "0 \<le> xpCurrent s" and "1 \<le> g"
    and "level t = level (applyXp s g)" and "xpCurrent t = xpCurrent (applyXp s g)"
  shows "level (removeXp t (real_of_int g)) = level s \<and> xpCurrent (removeXp t (real_of_int g)) = xpCurrent s"
proof -
  define r where "r = levelUpLoop (seasonCap s) (level s) (xpCurrent s + g)"
  have t: "level t = fst r" "xpCurrent t = snd r"
    using assms(5,6) by (simp_all add: applyXp_def Let_def r_def)
  have loss: "max 0 (jsRound (real_of_int g)) = g" using assms(4) by (simp add: jsRound_of_int)
  have pre: "level s < seasonCap s \<longrightarrow> (xpCurrent s + g) - g < xpToNext (level s)"
    using assms(1) by (simp add: xpInvariant_def)
  have "levelDownLoop (fst r) (snd r - g) = levelDownLoop (level s) ((xpCurrent s + g) - g)"
    unfolding r_def using assms(2) pre by (rule levelDown_after_levelUp)
  also have "\<dots> = (level s, xpCurrent s)"
    using assms(3) by (simp add: levelDownLoop_stop)
  finally have "levelDownLoop (level t) (xpCurrent t - g) = (level s, xpCurrent s)"
    by (simp add: t)
  then show ?thesis using assms(3) by (simp add: removeXp_def Let_def loss)
qed

lemma stats_roundtrip:
  assumes "\<forall>k. 1 \<le> stats s k"
  shows "stats (revertStatGains (removeXp (applyStatGains (applyXp s g) gains) l) gains) = stats s"
proof
  fix k
  have "1 \<le> stats s k" using assms by blast
  then show "stats (revertStatGains (removeXp (applyStatGains (applyXp s g) gains) l) gains) k = stats s k"
    by (cases "gains k")
       (simp_all add: revertStatGains_def removeXp_def applyStatGains_def applyXp_def Let_def)
qed

lemma character_roundtrip:
  assumes "xpInvariant s" and "1 \<le> level s" and "0 \<le> xpCurrent s" and "\<forall>k. 1 \<le> stats s k"
    and "1 \<le> g"
    and "s' = revertStatGains (removeXp (applyStatGains (applyXp s g) gains) (real_of_int g)) gains"
  shows "level s' = level s \<and> xpCurrent s' = xpCurrent s \<and> stats s' = stats s"
proof -
  have "level (applyStatGains (applyXp s g) gains) = level (applyXp s g)"
   and "xpCurrent (applyStatGains (applyXp s g) gains) = xpCurrent (applyXp s g)"
    by (simp_all add: applyStatGains_def)
  from removeXp_after_applyXp [OF assms(1,2,3,5) this]
  have "level s' = level s \<and> xpCurrent s' = xpCurrent s"
    by (simp add: assms(6) revertStatGains_def)
  moreover have "stats s' = stats s"
    unfolding assms(6) using assms(4) by (rule stats_roundtrip)
  ultimately show ?thesis by blast
qed

lemma getTask_id: "getTask k rows = Some t \<Longrightarrow> taskId t = k"
  by (auto simp add: getTask_def find_Some_iff)

lemma getTask_putRow: "taskId t = k \<Longrightarrow> getTask k (putRow taskId t rows) = Some t"
  by (induction rows) (auto simp add: getTask_def)

lemma getTask_append: "getTask k rows = Some t \<Longrightarrow> getTask k (rows @ extra) = Some t"
  by (induction rows) (auto simp add: getTask_def)

lemma syncAll_frame:
  "character (syncAll env db) = character db \<and> tasks (syncAll env db) = tasks db
   \<and> analyticsDaily (syncAll env db) = analyticsDaily db"
  by (simp add: syncAll_def syncAchievementProgress_def syncQuestProgress_def Let_def)


lemma upsert_frame:
  "character (upsertDailyAggregate env occ delta ck cm db) = character db
   \<and> tasks (upsertDailyAggregate env occ delta ck cm db) = tasks db"
  by (simp add: upsertDailyAggregate_def Let_def)

lemma upsert_completionsOn:
  "completionsOn (upsertDailyAggregate env occ delta None 0 db) day
     = completionsOn db day + (if day = dayKey env occ then orZero (dCompletions delta) else 0)"
  by (simp add: upsertDailyAggregate_def completionsOn_def Let_def split: option.splits)

lemma upsert_xpGainedOn:
  "xpGainedOn (upsertDailyAggregate env occ delta None 0 db) day
     = xpGainedOn db day + (if day = dayKey env occ then orZero (dXpGained delta) else 0)"
  by (simp add: upsertDailyAggregate_def xpGainedOn_def Let_def split: option.splits)

lemma counters_frame:
  "analyticsDaily db' = analyticsDaily db \<Longrightarrow>
   completionsOn db' day = completionsOn db day \<and> xpGainedOn db' day = xpGainedOn db day"
  by (simp add: completionsOn_def xpGainedOn_def)

lemma recordTaskCompletion_Some:
  assumes "character db = Some c" and "calculateTaskXp (taskXpInputOf env task db c) = Some X"
  shows "recordTaskCompletion env uid task db
           = Some (Some \<lparr>xpGain = X, statGains = completionGains task db c X,
                         levelBefore = level c,
                         levelAfter = level (applyStatGains (applyXp c X)
                                               (completionGains task db c X))\<rparr>,
                   recordedDb env uid task db c X)"
  using assms
  by (simp add: recordTaskCompletion_def Let_def recordedDb_def completionGains_def)

lemma recordTaskCompletion_None:
  assumes "character db = Some c" and "calculateTaskXp (taskXpInputOf env task db c) = None"
  shows "recordTaskCompletion env uid task db = None"
  using assms by (simp add: recordTaskCompletion_def)

lemma recordedDb_effect:
  "character (recordedDb env uid task db c X)
     = Some (applyStatGains (applyXp c X) (completionGains task db c X))"
  "tasks (recordedDb env uid task db c X) = tasks db"
  "completionsOn (recordedDb env uid task db c X) day
     = completionsOn db day
       + (if day = dayKey env (case completedAt task of Some x \<Rightarrow> x | None \<Rightarrow> updatedAt task)
          then 1 else 0)"
  "xpGainedOn (recordedDb env uid task db c X) day
     = xpGainedOn db day
       + (if day = dayKey env (case completedAt task of Some x \<Rightarrow> x | None \<Rightarrow> updatedAt task)
          then X else 0)"
proof -
  define dbe where "dbe = appendEvent env uid TaskCompleted
       (JObj [(''taskId'', JStr (taskId task)), (''xp'', JNum X), (''categoryId'', JStr (categoryId task))])
       (db\<lparr>character := Some (applyStatGains (applyXp c X) (completionGains task db c X)),
            streaks := Some (updateTaskStreak (calendarDay env)
                               (case streaks db of None \<Rightarrow> defaultStreak | Some s \<Rightarrow> s) (todayKey env))\<rparr>)"
  have r: "recordedDb env uid task db c X = applyTaskAnalytics env task X dbe"
    by (simp add: recordedDb_def dbe_def)
  have e: "character dbe = Some (applyStatGains (applyXp c X) (completionGains task db c X))"
    "tasks dbe = tasks db" "analyticsDaily dbe = analyticsDaily db"
    by (simp_all add: dbe_def appendEvent_def)
  show "character (recordedDb env uid task db c X)
     = Some (applyStatGains (applyXp c X) (completionGains task db c X))"
    by (simp add: r applyTaskAnalytics_def upsert_frame e)
  show "tasks (recordedDb env uid task db c X) = tasks db"
    by (simp add: r applyTaskAnalytics_def upsert_frame e)
  show "completionsOn (recordedDb env uid task db c X) day
     = completionsOn db day
       + (if day = dayKey env (case completedAt task of Some x \<Rightarrow> x | None \<Rightarrow> updatedAt task)
          then 1 else 0)"
    using counters_frame [OF e(3), of day]
    by (simp add: r applyTaskAnalytics_def upsert_completionsOn orZero_def)
  show "xpGainedOn (recordedDb env uid task db c X) day
     = xpGainedOn db day
       + (if day = dayKey env (case completedAt task of Some x \<Rightarrow> x | None \<Rightarrow> updatedAt task)
          then X else 0)"
    using counters_frame [OF e(3), of day]
    by (simp add: r applyTaskAnalytics_def upsert_xpGainedOn orZero_def)
qed

lemma completeTask_Some:
  assumes "getTask tid (tasks db) = Some task" and "status task = Todo"
    and "character db = Some c"
    and "calculateTaskXp (taskXpInputOf env (markedDone env task) db c) = Some X" and "1 \<le> X"
  shows "completeTask env (Some uid) tid db
           = Some (Some \<lparr>xpGain = X, statGains = completionGains (markedDone env task) db c X,
                         levelBefore = level c,
                         levelAfter = level (applyStatGains (applyXp c X)
                                               (completionGains (markedDone env task) db c X))\<rparr>,
                   completedDb env uid task db c X)"
proof -
  have rec: "recordTaskCompletion env uid
               (task\<lparr>status := Done, completedAt := Some (nowIso env), updatedAt := nowIso env\<rparr>) db
           = Some (Some \<lparr>xpGain = X, statGains = completionGains (markedDone env task) db c X,
                         levelBefore = level c,
                         levelAfter = level (applyStatGains (applyXp c X)
                                               (completionGains (markedDone env task) db c X))\<rparr>,
                   recordedDb env uid (markedDone env task) db c X)"
    using recordTaskCompletion_Some [OF assms(3,4), of uid] by (simp add: markedDone_def)
  have Xpos: "0 < X" using assms(5) by simp
  show ?thesis
    using assms(1,2) Xpos
    by (cases "recurrence task")
       (simp_all add: completeTask_def Let_def rec completedDb_def rewardedTask_def,
        simp_all add: markedDone_def)
qed

lemma completeTask_nan:
  assumes "getTask tid (tasks db) = Some task" and "status task = Todo"
    and "character db = Some c" and "estimateMinutes task < - 15"
  shows "completeTask env (Some uid) tid db = None"
proof -
  have "calculateTaskXp (taskXpInputOf env
          (task\<lparr>status := Done, completedAt := Some (nowIso env), updatedAt := nowIso env\<rparr>) db c) = None"
    by (rule calculateTaskXp_None) (simp add: taskXpInputOf_def Let_def assms(4))
  from recordTaskCompletion_None [OF assms(3) this, of uid]
  show ?thesis using assms(1,2) by (simp add: completeTask_def Let_def)
qed

lemma completedDb_effect:
  assumes "getTask tid (tasks db) = Some task"
  shows "character (completedDb env uid task db c X)
           = Some (applyStatGains (applyXp c X) (completionGains (markedDone env task) db c X))"
    and "getTask tid (tasks (completedDb env uid task db c X)) = Some (rewardedTask env task db c X)"
    and "completionsOn (completedDb env uid task db c X) day
           = completionsOn db day + (if day = dayKey env (nowIso env) then 1 else 0)"
    and "xpGainedOn (completedDb env uid task db c X) day
           = xpGainedOn db day + (if day = dayKey env (nowIso env) then X else 0)"
proof -
  define u where "u = markedDone env task"
  define rdb where "rdb = recordedDb env uid u db c X"
  define ct where "ct = rewardedTask env task db c X"
  define db1 where "db1 = rdb\<lparr>tasks := putRow taskId ct (tasks rdb)\<rparr>"
  define db2 where "db2 = (case recurrence task of None \<Rightarrow> db1
                           | Some _ \<Rightarrow> db1\<lparr>tasks := tasks db1 @ [spawnNextTask env ct (nowIso env)]\<rparr>)"
  have res: "completedDb env uid task db c X = syncAll env db2"
    unfolding completedDb_def Let_def db2_def db1_def ct_def rdb_def u_def by (rule refl)
  note eff = recordedDb_effect [of env uid u db c X]
  have ca: "completedAt u = Some (nowIso env)" by (simp add: u_def markedDone_def)
  have ct_id: "taskId ct = tid"
    using getTask_id [OF assms(1)] by (simp add: ct_def rewardedTask_def markedDone_def)
  have t1: "getTask tid (tasks db1) = Some ct"
    by (simp add: db1_def getTask_putRow [OF ct_id])
  have t2: "getTask tid (tasks db2) = Some ct"
    by (cases "recurrence task") (simp_all add: db2_def t1 getTask_append [OF t1])
  have c2: "character db2 = character rdb"
    by (cases "recurrence task") (simp_all add: db2_def db1_def)
  have a2: "analyticsDaily db2 = analyticsDaily rdb"
    by (cases "recurrence task") (simp_all add: db2_def db1_def)
  show "character (completedDb env uid task db c X)
           = Some (applyStatGains (applyXp c X) (completionGains (markedDone env task) db c X))"
    using eff(1) by (simp add: res syncAll_frame c2 rdb_def u_def)
  show "getTask tid (tasks (completedDb env uid task db c X)) = Some (rewardedTask env task db c X)"
    by (simp add: res syncAll_frame t2 ct_def)
  have a3: "analyticsDaily (completedDb env uid task db c X) = analyticsDaily rdb"
    by (simp add: res syncAll_frame a2)
  show "completionsOn (completedDb env uid task db c X) day
           = completionsOn db day + (if day = dayKey env (nowIso env) then 1 else 0)"
    using counters_frame [OF a3, of day] eff(3) [of day] by (simp add: rdb_def ca)
  show "xpGainedOn (completedDb env uid task db c X) day
           = xpGainedOn db day + (if day = dayKey env (nowIso env) then X else 0)"
    using counters_frame [OF a3, of day] eff(4) [of day] by (simp add: rdb_def ca)
qed

lemma reopenTask_effect:
  assumes "getTask tid (tasks db) = Some t" and "status t = Done"
    and "completionReward t = Some rw" and "character db = Some c"
    and "completedAt t = Some occ" and "occ \<noteq> []" and "xpGain rw \<noteq> 0"
  shows "character (reopenTask env (Some uid) tid db)
           = Some (revertStatGains (removeXp c (real_of_int (xpGain rw))) (statGains rw))"
    and "completionsOn (reopenTask env (Some uid) tid db) day
           = completionsOn db day + (if day = dayKey env occ then - 1 else 0)"
    and "xpGainedOn (reopenTask env (Some uid) tid db) day
           = xpGainedOn db day + (if day = dayKey env occ then - xpGain rw else 0)"
proof -
  define c' where "c' = revertStatGains (removeXp c (real_of_int (xpGain rw))) (statGains rw)"
  define u where "u = t\<lparr>status := Todo, completedAt := None, completionReward := None,
                         updatedAt := nowIso env\<rparr>"
  define db2 where "db2 = (db\<lparr>character := Some c'\<rparr>)\<lparr>tasks := putRow taskId u (tasks db)\<rparr>"
  define db3 where "db3 = upsertDailyAggregate env occ
       \<lparr>dFocusMinutes = None, dCompletions = Some (- 1), dXpGained = Some (- xpGain rw)\<rparr> None 0 db2"
  have res: "reopenTask env (Some uid) tid db
               = syncAll env (appendEvent env uid TaskReopened (JObj [(''taskId'', JStr tid)]) db3)"
    using assms
    by (simp add: reopenTask_def Let_def db3_def db2_def u_def c'_def)
  have a2: "analyticsDaily db2 = analyticsDaily db" by (simp add: db2_def)
  have c3: "character db3 = Some c'" by (simp add: db3_def upsert_frame db2_def)
  have fin: "analyticsDaily (reopenTask env (Some uid) tid db) = analyticsDaily db3"
    by (simp add: res syncAll_frame appendEvent_def)
  show "character (reopenTask env (Some uid) tid db)
           = Some (revertStatGains (removeXp c (real_of_int (xpGain rw))) (statGains rw))"
    by (simp add: res syncAll_frame appendEvent_def c3) (simp add: c'_def)
  show "completionsOn (reopenTask env (Some uid) tid db) day
           = completionsOn db day + (if day = dayKey env occ then - 1 else 0)"
    using counters_frame [OF fin, of day] counters_frame [OF a2, of day]
    by (simp add: db3_def upsert_completionsOn orZero_def)
  show "xpGainedOn (reopenTask env (Some uid) tid db) day
           = xpGainedOn db day + (if day = dayKey env occ then - xpGain rw else 0)"
    using counters_frame [OF fin, of day] counters_frame [OF a2, of day]
    by (simp add: db3_def upsert_xpGainedOn orZero_def)
qed


lemma stat_floor_kept:
  "\<forall>k. 1 \<le> stats s k \<Longrightarrow>
   (\<forall>k. 1 \<le> stats (applyStatGains s g) k) \<and> (\<forall>k. 1 \<le> stats (revertStatGains s g) k)"
proof -
  assume a: "\<forall>k. 1 \<le> stats s k"
  have "1 \<le> stats (applyStatGains s g) k \<and> 1 \<le> stats (revertStatGains s g) k" for k
    using a [rule_format, of k]
    by (cases "g k") (simp_all add: applyStatGains_def revertStatGains_def)
  then show ?thesis by blast
qed

text \<open>
  C3. A task that is completed with \<open>completeTask\<close> and then reopened with \<open>reopenTask\<close>,
  with nothing else happening to the database in between, leaves the character's level,
  xpCurrent and every stat, and the completions and xpGained counters of every day's
  aggregate, exactly as they were before the completion. In between, the completion has
  paid a reward of at least 1 XP, stored it on the task, applied it to the character and
  counted it on the completion's day; the reopening reverses that stored reward with
  \<open>removeXp\<close> and \<open>revertStatGains\<close>. The task's estimate is one for which the XP is a
  number: \<open>estimateMinutes\<close> is at least -15 (the data model has it a positive integer;
  below -15 the XP is \<open>NaN\<close>, see \<open>completeTask_nan\<close>). The character is one the store
  can hold: the XP bar is not full below the cap, level is at least 1, xpCurrent at least
  0 and every stat at least 1 (the bootstrap values are 5, and reverting never goes below
  1). The completion's clock reading is a timestamp, and it falls on the same local day
  when it is read back at the reopening.
\<close>

theorem complete_then_reopen_restores:
  assumes "getTask tid (tasks db) = Some task" and "status task = Todo"
    and "- 15 \<le> estimateMinutes task"
    and "character db = Some c"
    and "xpInvariant c" and "1 \<le> level c" and "0 \<le> xpCurrent c" and "\<forall>k. 1 \<le> stats c k"
    and "nowIso env1 \<noteq> []" and "dayKey env2 (nowIso env1) = dayKey env1 (nowIso env1)"
  shows "\<exists>r rw. completeTask env1 (Some uid) tid db = Some r \<and> fst r = Some rw \<and> 1 \<le> xpGain rw
       \<and> character (snd r) = Some (applyStatGains (applyXp c (xpGain rw)) (statGains rw))
       \<and> map_option completionReward (getTask tid (tasks (snd r)))
           = Some (Some \<lparr>xpGain = xpGain rw, statGains = statGains rw\<rparr>)
       \<and> completionsOn (snd r) day
           = completionsOn db day + (if day = dayKey env1 (nowIso env1) then 1 else 0)
       \<and> xpGainedOn (snd r) day
           = xpGainedOn db day + (if day = dayKey env1 (nowIso env1) then xpGain rw else 0)
       \<and> character (reopenTask env2 (Some uid) tid (snd r))
           = Some (revertStatGains
                     (removeXp (applyStatGains (applyXp c (xpGain rw)) (statGains rw))
                        (real_of_int (xpGain rw)))
                     (statGains rw))
       \<and> map_option level (character (reopenTask env2 (Some uid) tid (snd r))) = Some (level c)
       \<and> map_option xpCurrent (character (reopenTask env2 (Some uid) tid (snd r)))
           = Some (xpCurrent c)
       \<and> map_option stats (character (reopenTask env2 (Some uid) tid (snd r))) = Some (stats c)
       \<and> completionsOn (reopenTask env2 (Some uid) tid (snd r)) day = completionsOn db day
       \<and> xpGainedOn (reopenTask env2 (Some uid) tid (snd r)) day = xpGainedOn db day"
proof -
  have "- 15 \<le> xiEstimateMinutes (taskXpInputOf env1 (markedDone env1 task) db c)"
    using assms(3) by (simp add: taskXpInputOf_def Let_def markedDone_def)
  from calculateTaskXp_Some [OF this]
  obtain X where X: "calculateTaskXp (taskXpInputOf env1 (markedDone env1 task) db c) = Some X"
    and Xpos: "1 \<le> X"
    by blast
  define G where "G = completionGains (markedDone env1 task) db c X"
  define rw where "rw = \<lparr>xpGain = X, statGains = G, levelBefore = level c,
                         levelAfter = level (applyStatGains (applyXp c X) G)\<rparr>"
  define db1 where "db1 = completedDb env1 uid task db c X"
  define t1 where "t1 = rewardedTask env1 task db c X"
  define c' where "c' = revertStatGains (removeXp (applyStatGains (applyXp c X) G) (real_of_int X)) G"
  define db2 where "db2 = reopenTask env2 (Some uid) tid db1"
  have res: "completeTask env1 (Some uid) tid db = Some (Some rw, db1)"
    unfolding rw_def G_def db1_def by (rule completeTask_Some [OF assms(1,2,4) X Xpos])
  note ce = completedDb_effect [OF assms(1), of env1 uid c X]
  have rwX: "xpGain rw = X" and rwG: "statGains rw = G" by (simp_all add: rw_def)
  have c1: "character db1 = Some (applyStatGains (applyXp c X) G)"
    unfolding db1_def G_def by (rule ce(1))
  have g1: "getTask tid (tasks db1) = Some t1"
    unfolding db1_def t1_def by (rule ce(2))
  have t1s: "status t1 = Done" "completionReward t1 = Some \<lparr>xpGain = X, statGains = G\<rparr>"
    "completedAt t1 = Some (nowIso env1)"
    by (simp_all add: t1_def rewardedTask_def markedDone_def G_def)
  have m1: "completionsOn db1 day
              = completionsOn db day + (if day = dayKey env1 (nowIso env1) then 1 else 0)"
    unfolding db1_def by (rule ce(3))
  have m2: "xpGainedOn db1 day
              = xpGainedOn db day + (if day = dayKey env1 (nowIso env1) then X else 0)"
    unfolding db1_def by (rule ce(4))
  have Xne: "xpGain \<lparr>xpGain = X, statGains = G\<rparr> \<noteq> 0" using Xpos by simp
  note re = reopenTask_effect [OF g1 t1s(1) t1s(2) c1 t1s(3) assms(9) Xne, of env2 uid]
  have c2: "character db2 = Some c'"
    using re(1) by (simp add: c'_def db2_def)
  have rt: "level c' = level c \<and> xpCurrent c' = xpCurrent c \<and> stats c' = stats c"
    using assms(5,6,7,8) Xpos c'_def by (rule character_roundtrip)
  have k1: "completionsOn db2 day = completionsOn db day"
    using re(2) [of day] m1 by (simp add: db2_def assms(10))
  have k2: "xpGainedOn db2 day = xpGainedOn db day"
    using re(3) [of day] m2 by (simp add: db2_def assms(10))
  have "completeTask env1 (Some uid) tid db = Some (Some rw, db1)
       \<and> fst (Some rw, db1) = Some rw \<and> 1 \<le> xpGain rw
       \<and> character (snd (Some rw, db1)) = Some (applyStatGains (applyXp c (xpGain rw)) (statGains rw))
       \<and> map_option completionReward (getTask tid (tasks (snd (Some rw, db1))))
           = Some (Some \<lparr>xpGain = xpGain rw, statGains = statGains rw\<rparr>)
       \<and> completionsOn (snd (Some rw, db1)) day
           = completionsOn db day + (if day = dayKey env1 (nowIso env1) then 1 else 0)
       \<and> xpGainedOn (snd (Some rw, db1)) day
           = xpGainedOn db day + (if day = dayKey env1 (nowIso env1) then xpGain rw else 0)
       \<and> character (reopenTask env2 (Some uid) tid (snd (Some rw, db1)))
           = Some (revertStatGains
                     (removeXp (applyStatGains (applyXp c (xpGain rw)) (statGains rw))
                        (real_of_int (xpGain rw)))
                     (statGains rw))
       \<and> map_option level (character (reopenTask env2 (Some uid) tid (snd (Some rw, db1))))
           = Some (level c)
       \<and> map_option xpCurrent (character (reopenTask env2 (Some uid) tid (snd (Some rw, db1))))
           = Some (xpCurrent c)
       \<and> map_option stats (character (reopenTask env2 (Some uid) tid (snd (Some rw, db1))))
           = Some (stats c)
       \<and> completionsOn (reopenTask env2 (Some uid) tid (snd (Some rw, db1))) day = completionsOn db day
       \<and> xpGainedOn (reopenTask env2 (Some uid) tid (snd (Some rw, db1))) day = xpGainedOn db day"
    using res Xpos c1 g1 t1s(2) m1 m2 c2 rt k1 k2
    by (simp add: rwX rwG db2_def [symmetric] c'_def)
  then show ?thesis by (intro exI)
qed

theorem complete_then_reopen_restores_witness:
  "getTask ''t-new'' (tasks smallDb) = Some readTask \<and> status readTask = Todo
   \<and> - 15 \<le> estimateMinutes readTask
   \<and> character smallDb = Some baseCharacter
   \<and> xpInvariant baseCharacter \<and> 1 \<le> level baseCharacter \<and> 0 \<le> xpCurrent baseCharacter
   \<and> (\<forall>k. 1 \<le> stats baseCharacter k)
   \<and> nowIso febEnv \<noteq> [] \<and> dayKey febEnv (nowIso febEnv) = dayKey febEnv (nowIso febEnv)
   \<and> (\<exists>r rw. completeTask febEnv (Some ''u1'') ''t-new'' smallDb = Some r \<and> fst r = Some rw
         \<and> 1 \<le> xpGain rw
         \<and> completionsOn (snd r) ''2026-02-10'' = 1
         \<and> xpGainedOn (snd r) ''2026-02-10'' = xpGain rw
         \<and> map_option level (character (reopenTask febEnv (Some ''u1'') ''t-new'' (snd r))) = Some 1
         \<and> map_option xpCurrent (character (reopenTask febEnv (Some ''u1'') ''t-new'' (snd r)))
             = Some 0
         \<and> completionsOn (reopenTask febEnv (Some ''u1'') ''t-new'' (snd r)) ''2026-02-10'' = 0
         \<and> xpGainedOn (reopenTask febEnv (Some ''u1'') ''t-new'' (snd r)) ''2026-02-10'' = 0)"
proof -
  have h1: "getTask ''t-new'' (tasks smallDb) = Some readTask"
    by (simp add: getTask_def smallDb_def oldReadTask_def readTask_def)
  have h2: "status readTask = Todo" by (simp add: readTask_def)
  have h3: "- 15 \<le> estimateMinutes readTask" by (simp add: readTask_def)
  have h4: "character smallDb = Some baseCharacter" by (simp add: smallDb_def)
  have h5: "xpInvariant baseCharacter"
    by (simp add: xpInvariant_def baseCharacter_def xpToNext_1)
  have h6: "1 \<le> level baseCharacter" and h7: "0 \<le> xpCurrent baseCharacter"
   and h8: "\<forall>k. 1 \<le> stats baseCharacter k"
    by (simp_all add: baseCharacter_def)
  have h9: "nowIso febEnv \<noteq> []" by (simp add: febEnv_def)
  have h10: "dayKey febEnv (nowIso febEnv) = dayKey febEnv (nowIso febEnv)" by simp
  have z: "completionsOn smallDb ''2026-02-10'' = 0" "xpGainedOn smallDb ''2026-02-10'' = 0"
    by (simp_all add: completionsOn_def xpGainedOn_def smallDb_def)
  have l: "level baseCharacter = 1" "xpCurrent baseCharacter = 0" by (simp_all add: baseCharacter_def)
  have d: "dayKey febEnv (nowIso febEnv) = ''2026-02-10''" by (simp add: febEnv_def)
  from complete_then_reopen_restores [OF h1 h2 h3 h4 h5 h6 h7 h8 h9 h10, of "''u1''" "''2026-02-10''"]
  obtain r rw where
    "completeTask febEnv (Some ''u1'') ''t-new'' smallDb = Some r \<and> fst r = Some rw
         \<and> 1 \<le> xpGain rw
         \<and> completionsOn (snd r) ''2026-02-10'' = 1
         \<and> xpGainedOn (snd r) ''2026-02-10'' = xpGain rw
         \<and> map_option level (character (reopenTask febEnv (Some ''u1'') ''t-new'' (snd r))) = Some 1
         \<and> map_option xpCurrent (character (reopenTask febEnv (Some ''u1'') ''t-new'' (snd r)))
             = Some 0
         \<and> completionsOn (reopenTask febEnv (Some ''u1'') ''t-new'' (snd r)) ''2026-02-10'' = 0
         \<and> xpGainedOn (reopenTask febEnv (Some ''u1'') ''t-new'' (snd r)) ''2026-02-10'' = 0"
    by (auto simp add: z l d)
  then have "\<exists>r rw. completeTask febEnv (Some ''u1'') ''t-new'' smallDb = Some r \<and> fst r = Some rw
         \<and> 1 \<le> xpGain rw
         \<and> completionsOn (snd r) ''2026-02-10'' = 1
         \<and> xpGainedOn (snd r) ''2026-02-10'' = xpGain rw
         \<and> map_option level (character (reopenTask febEnv (Some ''u1'') ''t-new'' (snd r))) = Some 1
         \<and> map_option xpCurrent (character (reopenTask febEnv (Some ''u1'') ''t-new'' (snd r)))
             = Some 0
         \<and> completionsOn (reopenTask febEnv (Some ''u1'') ''t-new'' (snd r)) ''2026-02-10'' = 0
         \<and> xpGainedOn (reopenTask febEnv (Some ''u1'') ''t-new'' (snd r)) ''2026-02-10'' = 0"
    by (intro exI)
  with h1 h2 h3 h4 h5 h6 h7 h8 h9 show ?thesis by simp
qed

end
